theory Spec2Isabelle
  imports
    Main
    "HOL-Library.Sublist"
    "HOL-Library.AList"
    "HOL-Library.Multiset"
    "HOL-Library.Char_ord"
    "HOL-Library.List_Lexorder"
    "HOL-Library.Product_Lexorder"
begin

section \<open>Python strings\<close>

text \<open>
  A Python \<open>str\<close> is modelled as a \<open>string\<close>; a \<open>char\<close> stands for a code point
  below 256. Strings compare lexicographically by code point, as in Python.
\<close>

definition lower_char :: "char \<Rightarrow> char" where
  "lower_char c =
     (let n = (of_char c :: nat)
      in if (65 \<le> n \<and> n \<le> 90) \<or> (192 \<le> n \<and> n \<le> 222 \<and> n \<noteq> 215)
         then char_of (n + 32) else c)"

definition lower :: "string \<Rightarrow> string" where
  "lower s = map lower_char s"

definition is_space :: "char \<Rightarrow> bool" where
  "is_space c =
     (let n = (of_char c :: nat)
      in (9 \<le> n \<and> n \<le> 13) \<or> (28 \<le> n \<and> n \<le> 32) \<or> n = 133 \<or> n = 160)"

definition strip :: "string \<Rightarrow> string" where
  "strip s = rev (dropWhile is_space (rev (dropWhile is_space s)))"

definition startswith :: "string \<Rightarrow> string \<Rightarrow> bool" where
  "startswith s p = prefix p s"

definition endswith :: "string \<Rightarrow> string \<Rightarrow> bool" where
  "endswith s p = suffix p s"

text \<open>\<open>p in s\<close> for two strings: \<open>p\<close> occurs in \<open>s\<close> as a contiguous run.\<close>

fun str_in :: "string \<Rightarrow> string \<Rightarrow> bool" where
  "str_in p [] = (p = [])"
| "str_in p (c # s) = (prefix p (c # s) \<or> str_in p s)"

text \<open>\<open>s.split(sep)\<close> for a separator of one character.\<close>

fun split_on :: "char \<Rightarrow> string \<Rightarrow> string list" where
  "split_on sep [] = [[]]"
| "split_on sep (c # s) =
     (if c = sep then [] # split_on sep s
      else (case split_on sep s of
              [] \<Rightarrow> [[c]]
            | w # ws \<Rightarrow> (c # w) # ws))"

fun join :: "string \<Rightarrow> string list \<Rightarrow> string" where
  "join sep [] = []"
| "join sep [x] = x"
| "join sep (x # y # ys) = x @ sep @ join sep (y # ys)"

section \<open>Python values\<close>

text \<open>
  The values that \<open>json.loads\<close> produces. A \<open>dict\<close> is the list of its items in
  insertion order; its keys are strings. A \<open>float\<close> is held as its \<open>repr\<close>: the program
  only tests floats for truth, prints them and writes them back.
\<close>

datatype json =
    JNull
  | JBool bool
  | JInt int
  | JFloat string
  | JStr string
  | JArr "json list"
  | JObj "(string \<times> json) list"

datatype pyexn = AttributeError | TypeError | UnicodeDecodeError | OSError string

definition pbind :: "pyexn + 'a \<Rightarrow> ('a \<Rightarrow> pyexn + 'b) \<Rightarrow> pyexn + 'b" where
  "pbind r f = (case r of Inl e \<Rightarrow> Inl e | Inr v \<Rightarrow> f v)"

text \<open>Truth value of an object, as \<open>if x:\<close> and \<open>not x\<close> test it.\<close>

fun truthy :: "json \<Rightarrow> bool" where
  "truthy JNull = False"
| "truthy (JBool b) = b"
| "truthy (JInt i) = (i \<noteq> 0)"
| "truthy (JFloat r) = (r \<noteq> ''0.0'' \<and> r \<noteq> ''-0.0'')"
| "truthy (JStr s) = (s \<noteq> [])"
| "truthy (JArr xs) = (xs \<noteq> [])"
| "truthy (JObj kvs) = (kvs \<noteq> [])"

text \<open>\<open>d.get(k, default)\<close>: only a dict has the method.\<close>

definition dict_get :: "(string \<times> json) list \<Rightarrow> string \<Rightarrow> json \<Rightarrow> json" where
  "dict_get kvs k dflt = (case map_of kvs k of Some v \<Rightarrow> v | None \<Rightarrow> dflt)"

definition py_get :: "json \<Rightarrow> string \<Rightarrow> json \<Rightarrow> pyexn + json" where
  "py_get d k dflt =
     (case d of
        JObj kvs \<Rightarrow> Inr (dict_get kvs k dflt)
      | _ \<Rightarrow> Inl AttributeError)"

text \<open>\<open>s.startswith(p)\<close> on an arbitrary object: only a string has the method.\<close>

definition py_startswith :: "json \<Rightarrow> string \<Rightarrow> pyexn + bool" where
  "py_startswith v p = (case v of JStr s \<Rightarrow> Inr (startswith s p) | _ \<Rightarrow> Inl AttributeError)"

text \<open>Iterating over an object: a list gives its elements, a string its characters,
  a dict its keys; nothing else is iterable.\<close>

definition py_iter :: "json \<Rightarrow> pyexn + json list" where
  "py_iter v =
     (case v of
        JArr xs \<Rightarrow> Inr xs
      | JStr s \<Rightarrow> Inr (map (\<lambda>c. JStr [c]) s)
      | JObj kvs \<Rightarrow> Inr (map (\<lambda>kv. JStr (fst kv)) kvs)
      | _ \<Rightarrow> Inl TypeError)"

definition py_len :: "json \<Rightarrow> pyexn + nat" where
  "py_len v =
     (case v of
        JArr xs \<Rightarrow> Inr (length xs)
      | JStr s \<Rightarrow> Inr (length s)
      | JObj kvs \<Rightarrow> Inr (length kvs)
      | _ \<Rightarrow> Inl TypeError)"

subsection \<open>Printing: \<open>str\<close>, \<open>repr\<close> and \<open>format\<close>\<close>

definition digit_char :: "nat \<Rightarrow> char" where
  "digit_char d = (if d < 10 then char_of (48 + d) else char_of (87 + d))"

fun show_nat :: "nat \<Rightarrow> string" where
  "show_nat n = (if n < 10 then [digit_char n] else show_nat (n div 10) @ [digit_char (n mod 10)])"

definition show_int :: "int \<Rightarrow> string" where
  "show_int i = (if i < 0 then CHR ''-'' # show_nat (nat (- i)) else show_nat (nat i))"

definition hex2 :: "nat \<Rightarrow> string" where
  "hex2 n = [digit_char (n div 16), digit_char (n mod 16)]"

definition printable :: "char \<Rightarrow> bool" where
  "printable c =
     (let n = (of_char c :: nat) in \<not> (n < 32 \<or> (127 \<le> n \<and> n \<le> 160) \<or> n = 173))"

definition repr_char :: "char \<Rightarrow> char \<Rightarrow> string" where
  "repr_char q c =
     (if c = CHR 0x5C then [CHR 0x5C, CHR 0x5C]
      else if c = q then [CHR 0x5C, q]
      else if c = CHR 0x09 then [CHR 0x5C, CHR ''t'']
      else if c = CHR 0x0A then [CHR 0x5C, CHR ''n'']
      else if c = CHR 0x0D then [CHR 0x5C, CHR ''r'']
      else if printable c then [c]
      else [CHR 0x5C, CHR ''x''] @ hex2 (of_char c))"

definition repr_str :: "string \<Rightarrow> string" where
  "repr_str s =
     (let q = (if CHR 0x27 \<in> set s \<and> CHR 0x22 \<notin> set s then CHR 0x22 else CHR 0x27)
      in [q] @ concat (map (repr_char q) s) @ [q])"

fun py_repr :: "json \<Rightarrow> string" where
  "py_repr JNull = ''None''"
| "py_repr (JBool b) = (if b then ''True'' else ''False'')"
| "py_repr (JInt i) = show_int i"
| "py_repr (JFloat r) = r"
| "py_repr (JStr s) = repr_str s"
| "py_repr (JArr xs) = ''['' @ join '', '' (map py_repr xs) @ '']''"
| "py_repr (JObj kvs) =
     ''{'' @ join '', '' (map (\<lambda>kv. repr_str (fst kv) @ '': '' @ py_repr (snd kv)) kvs) @ ''}''"

text \<open>\<open>"{}".format(x)\<close> and \<open>str(x)\<close>.\<close>

definition py_str :: "json \<Rightarrow> string" where
  "py_str v = (case v of JStr s \<Rightarrow> s | _ \<Rightarrow> py_repr v)"

subsection \<open>\<open>json.dumps\<close>\<close>

definition json_char :: "char \<Rightarrow> string" where
  "json_char c =
     (if c = CHR 0x22 then [CHR 0x5C, CHR 0x22]
      else if c = CHR 0x5C then [CHR 0x5C, CHR 0x5C]
      else if c = CHR 0x0A then [CHR 0x5C, CHR ''n'']
      else if c = CHR 0x0D then [CHR 0x5C, CHR ''r'']
      else if c = CHR 0x09 then [CHR 0x5C, CHR ''t'']
      else if c = CHR 0x08 then [CHR 0x5C, CHR ''b'']
      else if c = CHR 0x0C then [CHR 0x5C, CHR ''f'']
      else if 32 \<le> (of_char c :: nat) \<and> (of_char c :: nat) \<le> 126 then [c]
      else [CHR 0x5C, CHR ''u'', CHR ''0'', CHR ''0''] @ hex2 (of_char c))"

definition json_string :: "string \<Rightarrow> string" where
  "json_string s = [CHR 0x22] @ concat (map json_char s) @ [CHR 0x22]"

definition json_float :: "string \<Rightarrow> string" where
  "json_float r =
     (if r = ''nan'' then ''NaN'' else if r = ''inf'' then ''Infinity''
      else if r = ''-inf'' then ''-Infinity'' else r)"

text \<open>\<open>json.dumps(obj, separators=(",", ":"))\<close>\<close>

fun dumps_compact :: "json \<Rightarrow> string" where
  "dumps_compact JNull = ''null''"
| "dumps_compact (JBool b) = (if b then ''true'' else ''false'')"
| "dumps_compact (JInt i) = show_int i"
| "dumps_compact (JFloat r) = json_float r"
| "dumps_compact (JStr s) = json_string s"
| "dumps_compact (JArr xs) = ''['' @ join '','' (map dumps_compact xs) @ '']''"
| "dumps_compact (JObj kvs) =
     ''{'' @ join '','' (map (\<lambda>kv. json_string (fst kv) @ '':'' @ dumps_compact (snd kv)) kvs) @ ''}''"

text \<open>\<open>json.dumps(obj, indent=2, sort_keys=True)\<close>, at nesting level \<open>l\<close>.\<close>

definition newline_indent :: "nat \<Rightarrow> string" where
  "newline_indent l = CHR 0x0A # replicate (2 * l) CHR '' ''"

fun dumps_indent :: "nat \<Rightarrow> json \<Rightarrow> string" where
  "dumps_indent l JNull = ''null''"
| "dumps_indent l (JBool b) = (if b then ''true'' else ''false'')"
| "dumps_indent l (JInt i) = show_int i"
| "dumps_indent l (JFloat r) = json_float r"
| "dumps_indent l (JStr s) = json_string s"
| "dumps_indent l (JArr xs) =
     (if xs = [] then ''[]''
      else ''['' @ newline_indent (Suc l)
           @ join ('','' @ newline_indent (Suc l)) (map (dumps_indent (Suc l)) xs)
           @ newline_indent l @ '']'')"
| "dumps_indent l (JObj kvs) =
     (if kvs = [] then ''{}''
      else ''{'' @ newline_indent (Suc l)
           @ join ('','' @ newline_indent (Suc l))
               (map (\<lambda>kv. json_string (fst kv) @ '': '' @ dumps_indent (Suc l) (snd kv))
                    (sort_key fst kvs))
           @ newline_indent l @ ''}'')"

definition dumps_pretty :: "json \<Rightarrow> string" where
  "dumps_pretty v = dumps_indent 0 v"

section \<open>The operating system\<close>

text \<open>
  A file is named by the list of its path components below the root directory; a
  path string is resolved against the current directory as \<open>os.path.abspath\<close>
  does it. There are no links and no devices: two different component lists are two
  different files. A directory is listed in the order of \<open>nodes\<close>. The text of a
  file is what reading it in text mode returns. \<open>proc\<close> is what running a command in
  a directory gives: the return code and the standard output, or nothing when the
  command cannot be run or times out.
\<close>

type_synonym path = "string list"

datatype node =
    File string
  | Binary \<comment> \<open>a regular file whose bytes do not decode as text\<close>
  | Locked \<comment> \<open>a regular file the process may neither read nor write\<close>
  | Dir bool \<comment> \<open>whether the directory can be listed\<close>
  | Socket \<comment> \<open>neither file nor directory; it cannot be opened\<close>

record world =
  nodes :: "(path \<times> node) list"
  cwd :: path
  proc :: "string list \<Rightarrow> string \<Rightarrow> (int \<times> string) option"

definition node_at :: "world \<Rightarrow> path \<Rightarrow> node option" where
  "node_at w p = (if p = [] then Some (Dir True) else map_of (nodes w) p)"

definition put_node :: "world \<Rightarrow> path \<Rightarrow> node \<Rightarrow> world" where
  "put_node w p n = w\<lparr>nodes := AList.update p n (nodes w)\<rparr>"

definition del_node :: "world \<Rightarrow> path \<Rightarrow> world" where
  "del_node w p = w\<lparr>nodes := AList.delete p (nodes w)\<rparr>"

subsection \<open>\<open>os.path\<close>\<close>

definition path_join :: "string \<Rightarrow> string \<Rightarrow> string" where
  "path_join a b =
     (if startswith b ''/'' then b
      else if a = [] \<or> endswith a ''/'' then a @ b
      else a @ ''/'' @ b)"

definition norm_step :: "path \<Rightarrow> string \<Rightarrow> path" where
  "norm_step acc c =
     (if c = [] \<or> c = ''.'' then acc
      else if c = ''..'' then butlast acc
      else acc @ [c])"

definition resolve :: "world \<Rightarrow> string \<Rightarrow> path" where
  "resolve w p = foldl norm_step (if startswith p ''/'' then [] else cwd w) (split_on CHR ''/'' p)"

definition abspath :: "world \<Rightarrow> string \<Rightarrow> string" where
  "abspath w p = ''/'' @ join ''/'' (resolve w p)"

fun commonprefix :: "path \<Rightarrow> path \<Rightarrow> path" where
  "commonprefix (x # xs) (y # ys) = (if x = y then x # commonprefix xs ys else [])"
| "commonprefix _ _ = []"

definition relpath :: "world \<Rightarrow> string \<Rightarrow> string \<Rightarrow> string" where
  "relpath w p start =
     (let start_list = resolve w start;
          path_list = resolve w p;
          i = length (commonprefix start_list path_list);
          rel_list = replicate (length start_list - i) ''..'' @ drop i path_list
      in if rel_list = [] then ''.'' else join ''/'' rel_list)"

definition basename :: "string \<Rightarrow> string" where
  "basename p = last (split_on CHR ''/'' p)"

definition isdir :: "world \<Rightarrow> string \<Rightarrow> bool" where
  "isdir w p = (case node_at w (resolve w p) of Some (Dir _) \<Rightarrow> True | _ \<Rightarrow> False)"

definition isfile :: "world \<Rightarrow> string \<Rightarrow> bool" where
  "isfile w p =
     (case node_at w (resolve w p) of
        Some (File _) \<Rightarrow> True
      | Some Binary \<Rightarrow> True
      | Some Locked \<Rightarrow> True
      | _ \<Rightarrow> False)"

subsection \<open>Failing system calls\<close>

definition os_error :: "nat \<Rightarrow> string \<Rightarrow> string \<Rightarrow> pyexn" where
  "os_error errno msg p = OSError (''[Errno '' @ show_nat errno @ ''] '' @ msg @ '': '' @ repr_str p)"

definition ENOENT :: "string \<Rightarrow> pyexn" where
  "ENOENT p = os_error 2 ''No such file or directory'' p"

definition EEXIST :: "string \<Rightarrow> pyexn" where
  "EEXIST p = os_error 17 ''File exists'' p"

definition ENOTDIR :: "string \<Rightarrow> pyexn" where
  "ENOTDIR p = os_error 20 ''Not a directory'' p"

definition EISDIR :: "string \<Rightarrow> pyexn" where
  "EISDIR p = os_error 21 ''Is a directory'' p"

definition EACCES :: "string \<Rightarrow> pyexn" where
  "EACCES p = os_error 13 ''Permission denied'' p"

definition ENXIO :: "string \<Rightarrow> pyexn" where
  "ENXIO p = os_error 6 ''No such device or address'' p"

subsection \<open>Reading\<close>

definition children :: "world \<Rightarrow> path \<Rightarrow> string list" where
  "children w d = remdups (map (\<lambda>pn. last (fst pn)) (filter (\<lambda>pn. fst pn \<noteq> [] \<and> butlast (fst pn) = d) (nodes w)))"

definition listdir :: "world \<Rightarrow> string \<Rightarrow> pyexn + string list" where
  "listdir w p =
     (case node_at w (resolve w p) of
        Some (Dir True) \<Rightarrow> Inr (children w (resolve w p))
      | Some (Dir False) \<Rightarrow> Inl (EACCES p)
      | Some _ \<Rightarrow> Inl (ENOTDIR p)
      | None \<Rightarrow> Inl (ENOENT p))"

text \<open>\<open>open(p, "r")\<close> followed by \<open>f.read()\<close>.\<close>

definition read_text :: "world \<Rightarrow> string \<Rightarrow> pyexn + string" where
  "read_text w p =
     (case node_at w (resolve w p) of
        Some (File t) \<Rightarrow> Inr t
      | Some Binary \<Rightarrow> Inl UnicodeDecodeError
      | Some Locked \<Rightarrow> Inl (EACCES p)
      | Some (Dir _) \<Rightarrow> Inl (EISDIR p)
      | Some Socket \<Rightarrow> Inl (ENXIO p)
      | None \<Rightarrow> Inl (ENOENT p))"

subsection \<open>Writing\<close>

text \<open>\<open>os.makedirs(p, exist_ok=True)\<close>: the directory and every missing ancestor.\<close>

fun make_path :: "world \<Rightarrow> string \<Rightarrow> path \<Rightarrow> string list \<Rightarrow> pyexn + world" where
  "make_path w p base [] = Inr w"
| "make_path w p base (c # cs) =
     (case node_at w (base @ [c]) of
        None \<Rightarrow> make_path (put_node w (base @ [c]) (Dir True)) p (base @ [c]) cs
      | Some (Dir _) \<Rightarrow> make_path w p (base @ [c]) cs
      | Some _ \<Rightarrow> Inl (if cs = [] then EEXIST p else ENOTDIR p))"

definition makedirs :: "world \<Rightarrow> string \<Rightarrow> pyexn + world" where
  "makedirs w p = make_path w p [] (resolve w p)"

text \<open>\<open>open(p, "w")\<close>: the file is created, or emptied when it exists.\<close>

definition open_w :: "world \<Rightarrow> string \<Rightarrow> pyexn + world" where
  "open_w w p =
     (let f = resolve w p
      in if f = [] then Inl (EISDIR p)
         else (case node_at w (butlast f) of
                 None \<Rightarrow> Inl (ENOENT p)
               | Some (Dir _) \<Rightarrow>
                   (case node_at w f of
                      Some (Dir _) \<Rightarrow> Inl (EISDIR p)
                    | Some Socket \<Rightarrow> Inl (ENXIO p)
                    | Some Locked \<Rightarrow> Inl (EACCES p)
                    | _ \<Rightarrow> Inr (put_node w f (File [])))
               | Some _ \<Rightarrow> Inl (ENOTDIR p)))"

text \<open>\<open>f.write(s)\<close> on the file opened at \<open>p\<close>.\<close>

definition write_str :: "world \<Rightarrow> string \<Rightarrow> string \<Rightarrow> world" where
  "write_str w p s =
     (case node_at w (resolve w p) of
        Some (File t) \<Rightarrow> put_node w (resolve w p) (File (t @ s))
      | _ \<Rightarrow> w)"

text \<open>
  \<open>os.replace(src, dst)\<close>: one step, in which \<open>dst\<close> becomes what \<open>src\<close> was. The
  program's one call comes after it has opened and written \<open>src\<close>, so \<open>src\<close> is never a
  directory there; moving a directory is not modelled, and the call fails on one.
\<close>

definition replace :: "world \<Rightarrow> string \<Rightarrow> string \<Rightarrow> pyexn + world" where
  "replace w src dst =
     (let s = resolve w src; d = resolve w dst
      in case node_at w s of
           None \<Rightarrow> Inl (ENOENT src)
         | Some (Dir l) \<Rightarrow> Inl (EISDIR src)
         | Some n \<Rightarrow>
             (if d = [] then Inl (EISDIR dst)
              else (case node_at w (butlast d) of
                      Some (Dir _) \<Rightarrow>
                        (case node_at w d of
                           Some (Dir _) \<Rightarrow> Inl (EISDIR dst)
                         | _ \<Rightarrow> Inr (put_node (del_node w s) d n))
                    | Some _ \<Rightarrow> Inl (ENOTDIR dst)
                    | None \<Rightarrow> Inl (ENOENT dst))))"

section \<open>Script categories\<close>

definition DEV_NAME_PATTERNS :: "string list" where
  "DEV_NAME_PATTERNS = [''dev'', ''start'', ''serve'', ''watch'']"

definition DEV_CMD_PATTERNS :: "string list" where
  "DEV_CMD_PATTERNS =
     [''vite'', ''next dev'', ''nodemon'', ''webpack serve'', ''webpack-dev-server'',
      ''ts-node-dev'', ''tsx watch'', ''nuxt dev'', ''remix dev'', ''astro dev'']"

definition BUILD_PATTERNS :: "string list" where
  "BUILD_PATTERNS = [''build'', ''compile'', ''bundle'']"

definition TEST_PATTERNS :: "string list" where
  "TEST_PATTERNS = [''test'', ''e2e'', ''cypress'', ''vitest'', ''playwright'']"

definition LINT_PATTERNS :: "string list" where
  "LINT_PATTERNS = [''lint'', ''format'', ''check'', ''prettier'', ''typecheck'', ''type-check'']"

definition CATEGORY_ORDER :: "(string \<times> nat) list" where
  "CATEGORY_ORDER = [(''devServer'', 0), (''build'', 1), (''test'', 2), (''lint'', 3), (''other'', 4)]"

definition any_in :: "string list \<Rightarrow> string \<Rightarrow> bool" where
  "any_in ps s = list_ex (\<lambda>p. str_in p s) ps"

definition categorize_script :: "string \<Rightarrow> string \<Rightarrow> string" where
  "categorize_script name command =
     (let lower_name = lower name; lower_cmd = lower command
      in if any_in DEV_NAME_PATTERNS lower_name \<or> any_in DEV_CMD_PATTERNS lower_cmd
           then ''devServer''
         else if any_in BUILD_PATTERNS lower_name then ''build''
         else if any_in TEST_PATTERNS lower_name then ''test''
         else if any_in LINT_PATTERNS lower_name then ''lint''
         else ''other'')"


record script_entry =
  se_name :: string
  se_command :: string
  runCommand :: string
  category :: string

section \<open>Env file scanner\<close>

definition SKIP_DIRS :: "string list" where
  "SKIP_DIRS =
     [''node_modules'', ''.git'', ''vendor'', ''.build'',
      ''DerivedData'', ''.svn'', ''.hg'', ''Pods'', ''Carthage'',
      ''.swiftpm'', ''build'', ''dist'', ''.next'', ''.nuxt'']"

definition MAX_DEPTH :: nat where
  "MAX_DEPTH = 5"

definition is_env_file :: "string \<Rightarrow> bool" where
  "is_env_file name = (startswith name ''.env'' \<or> endswith name ''.env'')"

text \<open>
  The body of the loop of \<open>scan_dir\<close> for a plain entry: \<open>results\<close> is the list the
  closure appends to.
\<close>

definition scan_file :: "world \<Rightarrow> string \<Rightarrow> string \<Rightarrow> string \<Rightarrow> string list \<Rightarrow> string list" where
  "scan_file w repo_path full name results =
     (if isfile w full \<and> is_env_file name
      then (let rel = relpath w full repo_path
            in if rel \<notin> set results then results @ [rel] else results)
      else results)"

function scan_dir :: "world \<Rightarrow> string \<Rightarrow> string \<Rightarrow> nat \<Rightarrow> string list \<Rightarrow> string list" where
  "scan_dir w repo_path dirpath depth results =
     (if depth > MAX_DEPTH then results
      else (case listdir w dirpath of
              Inl e \<Rightarrow> results
            | Inr entries \<Rightarrow>
                fold (\<lambda>name res.
                        if isdir w (path_join dirpath name)
                        then (if name \<notin> set SKIP_DIRS \<and> \<not> startswith name ''.''
                              then scan_dir w repo_path (path_join dirpath name) (depth + 1) res
                              else res)
                        else scan_file w repo_path (path_join dirpath name) name res)
                     entries results))"
  by pat_completeness auto
termination
  by (relation "measure (\<lambda>(w, repo_path, dirpath, depth, results). Suc MAX_DEPTH - depth)") auto

definition scan_env_files :: "world \<Rightarrow> string \<Rightarrow> string list" where
  "scan_env_files w repo_path =
     sort (scan_dir w (abspath w repo_path) (abspath w repo_path) 0 [])"

section \<open>Package manager detection\<close>

record package_manager =
  pm_name :: string
  setupCommand :: string
  lockFile :: "string option"

definition PACKAGE_MANAGER_CANDIDATES :: "(string \<times> string option \<times> string \<times> string) list" where
  "PACKAGE_MANAGER_CANDIDATES =
     [(''package.json'', Some ''bun.lockb'', ''bun'', ''bun install''),
      (''package.json'', Some ''bun.lock'', ''bun'', ''bun install''),
      (''package.json'', Some ''pnpm-lock.yaml'', ''pnpm'', ''pnpm install''),
      (''package.json'', Some ''yarn.lock'', ''yarn'', ''yarn install''),
      (''package.json'', None, ''npm'', ''npm install''),
      (''Gemfile'', None, ''bundler'', ''bundle install''),
      (''requirements.txt'', None, ''pip'', ''pip install -r requirements.txt''),
      (''pyproject.toml'', None, ''pip'', ''pip install -e .''),
      (''composer.json'', None, ''composer'', ''composer install''),
      (''Cargo.toml'', None, ''cargo'', ''cargo build''),
      (''go.mod'', None, ''go'', ''go mod download''),
      (''Package.swift'', None, ''swift'', ''swift package resolve''),
      (''Podfile'', None, ''cocoapods'', ''pod install'')]"

fun detect_in :: "world \<Rightarrow> string \<Rightarrow> (string \<times> string option \<times> string \<times> string) list
    \<Rightarrow> package_manager option" where
  "detect_in w repo_path [] = None"
| "detect_in w repo_path ((manifest, lock_file, name, setup_cmd) # rest) =
     (if \<not> isfile w (path_join repo_path manifest) then detect_in w repo_path rest
      else (case lock_file of
              Some lf \<Rightarrow>
                (if \<not> isfile w (path_join repo_path lf) then detect_in w repo_path rest
                 else Some \<lparr>pm_name = name, setupCommand = setup_cmd, lockFile = Some lf\<rparr>)
            | None \<Rightarrow> Some \<lparr>pm_name = name, setupCommand = setup_cmd, lockFile = None\<rparr>))"

definition detect_package_manager :: "world \<Rightarrow> string \<Rightarrow> package_manager option" where
  "detect_package_manager w repo_path = detect_in w repo_path PACKAGE_MANAGER_CANDIDATES"

section \<open>Script parsing\<close>

definition JS_MANAGERS :: "string list" where
  "JS_MANAGERS = [''npm'', ''yarn'', ''pnpm'', ''bun'']"

definition run_prefix_of :: "string \<Rightarrow> string" where
  "run_prefix_of pm =
     (case map_of [(''npm'', ''npm run''), (''yarn'', ''yarn''), (''pnpm'', ''pnpm run''),
                   (''bun'', ''bun run'')] pm of
        Some r \<Rightarrow> r
      | None \<Rightarrow> pm @ '' run'')"

definition category_rank :: "string \<Rightarrow> nat" where
  "category_rank c = (case map_of CATEGORY_ORDER c of Some r \<Rightarrow> r | None \<Rightarrow> 4)"

text \<open>
  The loop over \<open>scripts.items()\<close>. A command that is not a string has no \<open>lower\<close>:
  \<open>categorize_script\<close> raises there.
\<close>

fun script_entries :: "string \<Rightarrow> (string \<times> json) list \<Rightarrow> pyexn + script_entry list" where
  "script_entries run_prefix [] = Inr []"
| "script_entries run_prefix ((name, command) # rest) =
     (case command of
        JStr c \<Rightarrow>
          pbind (script_entries run_prefix rest)
            (\<lambda>es. Inr (\<lparr>se_name = name, se_command = c,
                         runCommand = run_prefix @ '' '' @ name,
                         category = categorize_script name c\<rparr> # es))
      | _ \<Rightarrow> Inl AttributeError)"

definition sort_scripts :: "script_entry list \<Rightarrow> script_entry list" where
  "sort_scripts result = sort_key (\<lambda>s. (category_rank (category s), se_name s)) result"

text \<open>
  \<open>loads\<close> is \<open>json.loads\<close>: the value read, or nothing where it raises
  \<open>JSONDecodeError\<close>. Reading a file catches \<open>OSError\<close> and \<open>JSONDecodeError\<close> only.
\<close>

definition parse_scripts ::
    "(string \<Rightarrow> json option) \<Rightarrow> world \<Rightarrow> string \<Rightarrow> package_manager option
      \<Rightarrow> pyexn + script_entry list" where
  "parse_scripts loads w repo_path pm =
     (case pm of
        None \<Rightarrow> Inr []
      | Some m \<Rightarrow>
          if pm_name m \<notin> set JS_MANAGERS then Inr []
          else (case read_text w (path_join repo_path ''package.json'') of
                  Inl (OSError m) \<Rightarrow> Inr []
                | Inl e \<Rightarrow> Inl e
                | Inr txt \<Rightarrow>
                    (case loads txt of
                       None \<Rightarrow> Inr []
                     | Some pkg \<Rightarrow>
                         pbind (py_get pkg ''scripts'' JNull)
                           (\<lambda>scripts.
                              case scripts of
                                JObj kvs \<Rightarrow>
                                  pbind (script_entries (run_prefix_of (pm_name m)) kvs)
                                    (\<lambda>result. Inr (sort_scripts result))
                              | _ \<Rightarrow> Inr []))))"

section \<open>Default branch detection\<close>

definition run_git :: "world \<Rightarrow> string list \<Rightarrow> string \<Rightarrow> string option" where
  "run_git w args dir =
     (case proc w (''git'' # args) dir of
        None \<Rightarrow> None
      | Some (returncode, out) \<Rightarrow> if returncode \<noteq> 0 then None else Some (strip out))"

definition probe_branches :: "world \<Rightarrow> string \<Rightarrow> string option" where
  "probe_branches w repo_path =
     (if run_git w [''rev-parse'', ''--verify'', ''main''] repo_path \<noteq> None then Some ''main''
      else if run_git w [''rev-parse'', ''--verify'', ''master''] repo_path \<noteq> None
        then Some ''master''
      else None)"

definition detect_default_branch :: "world \<Rightarrow> string \<Rightarrow> string option" where
  "detect_default_branch w repo_path =
     (case run_git w [''symbolic-ref'', ''--short'', ''refs/remotes/origin/HEAD''] repo_path of
        None \<Rightarrow> probe_branches w repo_path
      | Some output \<Rightarrow>
          if output = [] then probe_branches w repo_path
          else if CHR ''/'' \<in> set output
            then Some (tl (dropWhile (\<lambda>c. c \<noteq> CHR ''/'') output))
          else Some output)"

section \<open>Config service\<close>

definition CONFIG_DIR :: string where
  "CONFIG_DIR = ''.wtmux''"

definition CONFIG_FILE :: string where
  "CONFIG_FILE = ''config.json''"

definition config_path_of :: "string \<Rightarrow> string" where
  "config_path_of repo_path = path_join (path_join repo_path CONFIG_DIR) CONFIG_FILE"

definition read_config ::
    "(string \<Rightarrow> json option) \<Rightarrow> world \<Rightarrow> string \<Rightarrow> pyexn + json option" where
  "read_config loads w repo_path =
     (case read_text w (config_path_of repo_path) of
        Inl (OSError m) \<Rightarrow> Inr None
      | Inl e \<Rightarrow> Inl e
      | Inr txt \<Rightarrow> Inr (loads txt))"

text \<open>
  \<open>write_config\<close> is a sequence of system calls. The text goes to the temporary file
  piece by piece, so the sequence below writes it one character at a time: every
  state the file can be left in is the state after some step. A call that raises
  ends the sequence there.
\<close>

datatype syscall =
    Makedirs string
  | OpenW string
  | Write string string
  | Replace string string

fun exec_call :: "world \<Rightarrow> syscall \<Rightarrow> pyexn + world" where
  "exec_call w (Makedirs p) = makedirs w p"
| "exec_call w (OpenW p) = open_w w p"
| "exec_call w (Write p s) = Inr (write_str w p s)"
| "exec_call w (Replace src dst) = replace w src dst"

fun run_calls :: "world \<Rightarrow> syscall list \<Rightarrow> pyexn option \<times> world" where
  "run_calls w [] = (None, w)"
| "run_calls w (c # cs) =
     (case exec_call w c of
        Inl e \<Rightarrow> (Some e, w)
      | Inr w' \<Rightarrow> run_calls w' cs)"

definition write_config_calls :: "string \<Rightarrow> json \<Rightarrow> syscall list" where
  "write_config_calls repo_path config =
     (let dir_path = path_join repo_path CONFIG_DIR;
          config_path = path_join dir_path CONFIG_FILE;
          tmp_path = config_path @ ''.tmp''
      in [Makedirs dir_path, OpenW tmp_path]
         @ map (\<lambda>c. Write tmp_path [c]) (dumps_pretty config)
         @ [Write tmp_path [CHR 0x0A], Replace tmp_path config_path])"

definition write_config :: "world \<Rightarrow> string \<Rightarrow> json \<Rightarrow> pyexn option \<times> world" where
  "write_config w repo_path config = run_calls w (write_config_calls repo_path config)"

text \<open>The process killed after the first \<open>k\<close> system calls of \<open>write_config\<close>.\<close>

definition write_config_killed :: "nat \<Rightarrow> world \<Rightarrow> string \<Rightarrow> json \<Rightarrow> pyexn option \<times> world" where
  "write_config_killed k w repo_path config =
     run_calls w (take k (write_config_calls repo_path config))"

definition is_entry_line :: "string \<Rightarrow> bool" where
  "is_entry_line line = (strip line = ''.wtmux'' \<or> strip line = ''.wtmux/'')"

definition ensure_gitignore :: "world \<Rightarrow> string \<Rightarrow> (pyexn + bool) \<times> world" where
  "ensure_gitignore w repo_path =
     (let gitignore_path = path_join repo_path ''.gitignore''
      in case (if isfile w gitignore_path then read_text w gitignore_path else Inr []) of
           Inl e \<Rightarrow> (Inl e, w)
         | Inr contents \<Rightarrow>
             if list_ex is_entry_line (split_on CHR 0x0A contents) then (Inr False, w)
             else (let suffix = (if endswith contents [CHR 0x0A] then [] else [CHR 0x0A])
                   in case open_w w gitignore_path of
                        Inl e \<Rightarrow> (Inl e, w)
                      | Inr w' \<Rightarrow>
                          (Inr True,
                           write_str w' gitignore_path
                             (contents @ suffix @ ''.wtmux'' @ [CHR 0x0A]))))"


section \<open>Tool handlers\<close>

definition text_content :: "string \<Rightarrow> json" where
  "text_content text = JArr [JObj [(''type'', JStr ''text''), (''text'', JStr text)]]"

definition error_result :: "string \<Rightarrow> json" where
  "error_result text = JObj [(''content'', text_content text), (''isError'', JBool True)]"

definition text_result :: "string \<Rightarrow> json" where
  "text_result text = JObj [(''content'', text_content text)]"

definition str_opt :: "string option \<Rightarrow> json" where
  "str_opt x = (case x of None \<Rightarrow> JNull | Some s \<Rightarrow> JStr s)"

definition pm_dict :: "package_manager \<Rightarrow> json" where
  "pm_dict m =
     JObj [(''name'', JStr (pm_name m)), (''setupCommand'', JStr (setupCommand m)),
           (''lockFile'', str_opt (lockFile m))]"

definition script_dict :: "script_entry \<Rightarrow> json" where
  "script_dict e =
     JObj [(''name'', JStr (se_name e)), (''command'', JStr (se_command e)),
           (''runCommand'', JStr (runCommand e)), (''category'', JStr (category e))]"

definition no_git_text :: "string \<Rightarrow> string" where
  "no_git_text repo_path =
     ''No .git directory found at '' @ repo_path @ ''. Is this a git repository?''"

definition analysis_of :: "(string \<Rightarrow> json option) \<Rightarrow> world \<Rightarrow> string \<Rightarrow> pyexn + json" where
  "analysis_of loads w repo_path =
     (let project_name = basename (abspath w repo_path);
          env_files = scan_env_files w repo_path;
          pm = detect_package_manager w repo_path
      in pbind (parse_scripts loads w repo_path pm)
           (\<lambda>scripts.
              let default_branch = detect_default_branch w repo_path
              in pbind (read_config loads w repo_path)
                   (\<lambda>existing_config.
                      Inr (JObj [(''projectName'', JStr project_name),
                                 (''envFiles'', JArr (map JStr env_files)),
                                 (''packageManager'',
                                    (case pm of None \<Rightarrow> JNull | Some m \<Rightarrow> pm_dict m)),
                                 (''scripts'', JArr (map script_dict scripts)),
                                 (''defaultBranch'', str_opt default_branch),
                                 (''existingConfig'',
                                    (case existing_config of None \<Rightarrow> JNull | Some c \<Rightarrow> c))]))))"

definition handle_analyze_project ::
    "(string \<Rightarrow> json option) \<Rightarrow> json \<Rightarrow> world \<Rightarrow> (pyexn + json) \<times> world" where
  "handle_analyze_project loads arguments w =
     (case (if truthy arguments then arguments else JObj []) of
        JObj args \<Rightarrow>
          (let repo_path = dict_get args ''repoPath'' JNull
           in if \<not> truthy repo_path
              then (Inr (error_result ''Missing required parameter: repoPath''), w)
              else (case repo_path of
                      JStr rp \<Rightarrow>
                        if \<not> startswith rp ''/''
                        then (Inr (error_result ''repoPath must be an absolute path''), w)
                        else if \<not> isdir w (path_join rp ''.git'')
                        then (Inr (error_result (no_git_text rp)), w)
                        else (case analysis_of loads w rp of
                                Inl e \<Rightarrow> (Inl e, w)
                              | Inr analysis \<Rightarrow> (Inr (text_result (dumps_pretty analysis)), w))
                    | _ \<Rightarrow> (Inl AttributeError, w)))
      | _ \<Rightarrow> (Inl AttributeError, w))"

subsection \<open>\<open>configure_project\<close>\<close>

text \<open>\<open>isinstance(port, int)\<close> holds of an \<open>int\<close> and of a \<open>bool\<close>, which counts as 0 or 1.\<close>

definition int_value :: "json \<Rightarrow> int option" where
  "int_value v = (case v of JInt i \<Rightarrow> Some i | JBool b \<Rightarrow> Some (if b then 1 else 0) | _ \<Rightarrow> None)"

definition port_rejected :: "json \<Rightarrow> bool" where
  "port_rejected port =
     (port \<noteq> JNull \<and>
      (case int_value port of None \<Rightarrow> True | Some i \<Rightarrow> i < 1 \<or> i > 65535))"

definition invalid_port_text :: "json \<Rightarrow> json \<Rightarrow> string" where
  "invalid_port_text port name =
     ''Invalid port '' @ py_str port @ '' for '' @ [CHR 0x27] @ py_str name @ [CHR 0x27]
       @ ''. Must be 1-65535.''"

text \<open>
  The loop over \<open>enumerate(runConfigurations)\<close>: \<open>i\<close> is the index, \<open>run_configs\<close> the
  list built so far. \<open>Inl\<close> is the error result the loop returns from the handler.
\<close>

fun run_configs_loop :: "nat \<Rightarrow> json list \<Rightarrow> json list \<Rightarrow> json + json list" where
  "run_configs_loop i [] run_configs = Inr run_configs"
| "run_configs_loop i (rc # rest) run_configs =
     (case rc of
        JObj kvs \<Rightarrow>
          (let name = dict_get kvs ''name'' JNull;
               command = dict_get kvs ''command'' JNull
           in if \<not> truthy name \<or> \<not> truthy command
              then run_configs_loop (Suc i) rest run_configs
              else (let port = dict_get kvs ''port'' JNull
                    in if port_rejected port
                       then Inl (error_result (invalid_port_text port name))
                       else run_configs_loop (Suc i) rest
                              (run_configs @
                                 [JObj [(''name'', name), (''command'', command), (''port'', port),
                                        (''autoStart'', dict_get kvs ''autoStart'' (JBool False)),
                                        (''order'', dict_get kvs ''order'' (JInt (int i)))]])))
      | _ \<Rightarrow> run_configs_loop (Suc i) rest run_configs)"

definition terminal_start_command_of :: "(string \<times> json) list \<Rightarrow> json" where
  "terminal_start_command_of args =
     (if truthy (dict_get args ''startClaudeInTerminals'' JNull) then JStr ''claude''
      else if truthy (dict_get args ''terminalStartCommand'' JNull)
        then dict_get args ''terminalStartCommand'' JNull
      else JNull)"

definition optional_item :: "string \<Rightarrow> json \<Rightarrow> (string \<times> json) list" where
  "optional_item k v = (if v \<noteq> JNull then [(k, v)] else [])"

definition config_of :: "(string \<times> json) list \<Rightarrow> json list \<Rightarrow> json" where
  "config_of args run_configs =
     JObj ([(''envFilesToCopy'', dict_get args ''envFilesToCopy'' (JArr [])),
            (''setupCommands'', dict_get args ''setupCommands'' (JArr [])),
            (''runConfigurations'', JArr run_configs)]
           @ optional_item ''terminalStartCommand'' (terminal_start_command_of args)
           @ optional_item ''projectName'' (dict_get args ''projectName'' JNull)
           @ optional_item ''defaultBranch'' (dict_get args ''defaultBranch'' JNull)
           @ optional_item ''worktreeBasePath'' (dict_get args ''worktreeBasePath'' JNull))"

text \<open>\<open>sep.join(xs)\<close>: every item has to be a string.\<close>

fun strs_of :: "json list \<Rightarrow> pyexn + string list" where
  "strs_of [] = Inr []"
| "strs_of (x # xs) =
     (case x of
        JStr s \<Rightarrow> pbind (strs_of xs) (\<lambda>ss. Inr (s # ss))
      | _ \<Rightarrow> Inl TypeError)"

definition py_join :: "string \<Rightarrow> json \<Rightarrow> pyexn + string" where
  "py_join sep v = pbind (py_iter v) (\<lambda>xs. pbind (strs_of xs) (\<lambda>ss. Inr (join sep ss)))"

definition env_lines :: "json \<Rightarrow> pyexn + string list" where
  "env_lines env_files =
     (if truthy env_files
      then pbind (py_join '', '' env_files) (\<lambda>t. Inr [''- Env files: '' @ t])
      else Inr [])"

definition setup_lines :: "json \<Rightarrow> pyexn + string list" where
  "setup_lines setup_commands =
     (if truthy setup_commands
      then pbind (py_len setup_commands)
             (\<lambda>n. pbind (py_iter setup_commands)
                (\<lambda>cmds. Inr ((''- Setup commands: '' @ show_nat n)
                              # map (\<lambda>cmd. ''    '' @ py_str cmd) cmds)))
      else Inr [])"

definition runner_line :: "json \<Rightarrow> string" where
  "runner_line rc =
     (case rc of
        JObj kvs \<Rightarrow>
          (let port_str = (if truthy (dict_get kvs ''port'' JNull)
                           then '' (port '' @ py_str (dict_get kvs ''port'' JNull) @ '')''
                           else []);
               auto_str = (if truthy (dict_get kvs ''autoStart'' JNull)
                           then '' [default]'' else '' [optional]'')
           in ''    '' @ py_str (dict_get kvs ''name'' JNull) @ '': ''
              @ py_str (dict_get kvs ''command'' JNull) @ port_str @ auto_str)
      | _ \<Rightarrow> [])"

definition runner_lines :: "json list \<Rightarrow> string list" where
  "runner_lines run_configs =
     (if run_configs \<noteq> []
      then (''- Run configurations: '' @ show_nat (length run_configs)) # map runner_line run_configs
      else [])"

definition summary_text ::
    "string \<Rightarrow> json \<Rightarrow> json \<Rightarrow> json list \<Rightarrow> json \<Rightarrow> bool \<Rightarrow> pyexn + string" where
  "summary_text repo_path env_files setup_commands run_configs terminal_start_command
       gitignore_added =
     pbind (env_lines env_files)
       (\<lambda>l1. pbind (setup_lines setup_commands)
          (\<lambda>l2. Inr (join [CHR 0x0A]
             ([''Configured '' @ repo_path @ '':''] @ l1 @ l2 @ runner_lines run_configs
              @ (if truthy terminal_start_command
                 then [''- Terminal start command: '' @ py_str terminal_start_command]
                 else [])
              @ [[],
                 ''.wtmux/config.json written and project configured for WTMux. ''
                 @ (if gitignore_added then ''Added .wtmux to .gitignore.''
                    else ''.wtmux was already in .gitignore.'')]))))"

text \<open>\<open>except OSError as e\<close>: any other exception passes through.\<close>

definition write_failed :: "pyexn \<Rightarrow> pyexn + json" where
  "write_failed e =
     (case e of
        OSError m \<Rightarrow> Inr (error_result (''Failed to write config: '' @ m))
      | _ \<Rightarrow> Inl e)"

definition store_config ::
    "world \<Rightarrow> string \<Rightarrow> (string \<times> json) list \<Rightarrow> json list \<Rightarrow> (pyexn + json) \<times> world" where
  "store_config w rp args run_configs =
     (case write_config w rp (config_of args run_configs) of
        (Some e, w1) \<Rightarrow> (write_failed e, w1)
      | (None, w1) \<Rightarrow>
          (case ensure_gitignore w1 rp of
             (Inl e, w2) \<Rightarrow> (write_failed e, w2)
           | (Inr gitignore_added, w2) \<Rightarrow>
               (pbind (summary_text rp (dict_get args ''envFilesToCopy'' (JArr []))
                         (dict_get args ''setupCommands'' (JArr [])) run_configs
                         (terminal_start_command_of args) gitignore_added)
                  (\<lambda>t. Inr (text_result t)),
                w2)))"

definition handle_configure_project :: "json \<Rightarrow> world \<Rightarrow> (pyexn + json) \<times> world" where
  "handle_configure_project arguments w =
     (case (if truthy arguments then arguments else JObj []) of
        JObj args \<Rightarrow>
          (let repo_path = dict_get args ''repoPath'' JNull
           in if \<not> truthy repo_path
              then (Inr (error_result ''Missing required parameter: repoPath''), w)
              else (case repo_path of
                      JStr rp \<Rightarrow>
                        if \<not> startswith rp ''/''
                        then (Inr (error_result ''repoPath must be an absolute path''), w)
                        else if \<not> isdir w (path_join rp ''.git'')
                        then (Inr (error_result (no_git_text rp)), w)
                        else (case py_iter (dict_get args ''runConfigurations'' (JArr [])) of
                                Inl e \<Rightarrow> (Inl e, w)
                              | Inr rcs \<Rightarrow>
                                  (case run_configs_loop 0 rcs [] of
                                     Inl err \<Rightarrow> (Inr err, w)
                                   | Inr run_configs \<Rightarrow> store_config w rp args run_configs))
                    | _ \<Rightarrow> (Inl AttributeError, w)))
      | _ \<Rightarrow> (Inl AttributeError, w))"

subsection \<open>\<open>get_project_config\<close>\<close>

definition not_configured_text :: "string \<Rightarrow> string" where
  "not_configured_text repo_path =
     ''No .wtmux/config.json found at '' @ repo_path
       @ ''. Project is not yet configured for WTMux.''"

definition handle_get_project_config ::
    "(string \<Rightarrow> json option) \<Rightarrow> json \<Rightarrow> world \<Rightarrow> (pyexn + json) \<times> world" where
  "handle_get_project_config loads arguments w =
     (case (if truthy arguments then arguments else JObj []) of
        JObj args \<Rightarrow>
          (let repo_path = dict_get args ''repoPath'' JNull
           in if \<not> truthy repo_path
              then (Inr (error_result ''Missing required parameter: repoPath''), w)
              else (case repo_path of
                      JStr rp \<Rightarrow>
                        if \<not> startswith rp ''/''
                        then (Inr (error_result ''repoPath must be an absolute path''), w)
                        else (case read_config loads w rp of
                                Inl e \<Rightarrow> (Inl e, w)
                              | Inr None \<Rightarrow> (Inr (text_result (not_configured_text rp)), w)
                              | Inr (Some config) \<Rightarrow>
                                  (Inr (text_result (dumps_pretty config)), w))
                    | _ \<Rightarrow> (Inl AttributeError, w)))
      | _ \<Rightarrow> (Inl AttributeError, w))"

definition TOOL_HANDLERS ::
    "(string \<Rightarrow> json option) \<Rightarrow> (string \<times> (json \<Rightarrow> world \<Rightarrow> (pyexn + json) \<times> world)) list" where
  "TOOL_HANDLERS loads =
     [(''analyze_project'', handle_analyze_project loads),
      (''configure_project'', handle_configure_project),
      (''get_project_config'', handle_get_project_config loads)]"

section \<open>JSON-RPC server\<close>

text \<open>
  The two long literals of the source, the usage guide and the tool catalogue, are
  parameters of the server.
\<close>

record literals =
  SERVER_INSTRUCTIONS :: string
  TOOL_DEFINITIONS :: json

definition SERVER_NAME :: string where
  "SERVER_NAME = ''wtmux''"

definition SERVER_VERSION :: string where
  "SERVER_VERSION = ''1.0.0''"

definition response :: "json \<Rightarrow> json \<Rightarrow> json" where
  "response msg_id result = JObj [(''jsonrpc'', JStr ''2.0''), (''id'', msg_id), (''result'', result)]"

text \<open>\<open>TOOL_HANDLERS.get(tool_name)\<close>: a list or a dict cannot be hashed.\<close>

definition call_tool ::
    "(string \<Rightarrow> json option) \<Rightarrow> json \<Rightarrow> json \<Rightarrow> world \<Rightarrow> (pyexn + json) \<times> world" where
  "call_tool loads tool_name arguments w =
     (case tool_name of
        JArr xs \<Rightarrow> (Inl TypeError, w)
      | JObj kvs \<Rightarrow> (Inl TypeError, w)
      | JStr n \<Rightarrow>
          (case map_of (TOOL_HANDLERS loads) n of
             Some handler \<Rightarrow> handler arguments w
           | None \<Rightarrow> (Inr (error_result (''Unknown tool: '' @ py_str tool_name)), w))
      | _ \<Rightarrow> (Inr (error_result (''Unknown tool: '' @ py_str tool_name)), w))"

definition handle_request ::
    "literals \<Rightarrow> (string \<Rightarrow> json option) \<Rightarrow> json \<Rightarrow> world \<Rightarrow> (pyexn + json option) \<times> world" where
  "handle_request lit loads msg w =
     (case msg of
        JObj kvs \<Rightarrow>
          (let method = dict_get kvs ''method'' (JStr []);
               params = dict_get kvs ''params'' (JObj []);
               msg_id = dict_get kvs ''id'' JNull
           in if method = JStr ''initialize''
              then (Inr (Some (response msg_id
                      (JObj [(''protocolVersion'', JStr ''2024-11-05''),
                             (''capabilities'', JObj [(''tools'', JObj [])]),
                             (''serverInfo'', JObj [(''name'', JStr SERVER_NAME),
                                                    (''version'', JStr SERVER_VERSION)]),
                             (''instructions'', JStr (SERVER_INSTRUCTIONS lit))]))), w)
              else if method = JStr ''notifications/initialized'' then (Inr None, w)
              else if method = JStr ''tools/list''
              then (Inr (Some (response msg_id (JObj [(''tools'', TOOL_DEFINITIONS lit)]))), w)
              else if method = JStr ''tools/call''
              then (case params of
                      JObj ps \<Rightarrow>
                        (case call_tool loads (dict_get ps ''name'' (JStr []))
                                (dict_get ps ''arguments'' (JObj [])) w of
                           (Inl e, w') \<Rightarrow> (Inl e, w')
                         | (Inr result, w') \<Rightarrow> (Inr (Some (response msg_id result)), w'))
                    | _ \<Rightarrow> (Inl AttributeError, w))
              else if method = JStr ''ping'' then (Inr (Some (response msg_id (JObj []))), w)
              else if msg_id \<noteq> JNull
              then (Inr (Some (JObj [(''jsonrpc'', JStr ''2.0''), (''id'', msg_id),
                                     (''error'', JObj [(''code'', JInt (- 32601)),
                                        (''message'', JStr (''Method not found: '' @ py_str method))])])),
                    w)
              else (Inr None, w))
      | _ \<Rightarrow> (Inl AttributeError, w))"

text \<open>Standard output is the list of the strings written to it, in order.\<close>

definition send_response :: "string list \<Rightarrow> json \<Rightarrow> string list" where
  "send_response out obj = out @ [dumps_compact obj @ [CHR 0x0A]]"

text \<open>
  The loop of \<open>main\<close> over the lines of standard input. The result is the exception
  that ended the process, if one did, with what was written and the state reached.
\<close>

fun main_loop ::
    "literals \<Rightarrow> (string \<Rightarrow> json option) \<Rightarrow> string list \<Rightarrow> world \<Rightarrow> string list
      \<Rightarrow> pyexn option \<times> string list \<times> world" where
  "main_loop lit loads [] w out = (None, out, w)"
| "main_loop lit loads (line # rest) w out =
     (if strip line = [] then main_loop lit loads rest w out
      else (case loads (strip line) of
              None \<Rightarrow> main_loop lit loads rest w out
            | Some msg \<Rightarrow>
                (case handle_request lit loads msg w of
                   (Inl e, w') \<Rightarrow> (Some e, out, w')
                 | (Inr None, w') \<Rightarrow> main_loop lit loads rest w' out
                 | (Inr (Some r), w') \<Rightarrow> main_loop lit loads rest w' (send_response out r))))"

definition main :: "literals \<Rightarrow> (string \<Rightarrow> json option) \<Rightarrow> string list \<Rightarrow> world
    \<Rightarrow> pyexn option \<times> string list \<times> world" where
  "main lit loads lines w = main_loop lit loads lines w []"

section \<open>Notions of the specification\<close>

text \<open>
  The definitions of this section follow the words of the specification; the
  properties below compare them with the program.
\<close>

subsection \<open>Paths\<close>

text \<open>A name that \<open>os.path.join\<close> appends as one component.\<close>

definition plain_name :: "string \<Rightarrow> bool" where
  "plain_name n = (n \<noteq> [] \<and> CHR ''/'' \<notin> set n \<and> n \<noteq> ''.'' \<and> n \<noteq> ''..'')"

subsection \<open>Package manager precedence\<close>

text \<open>An entry of the table matches when its manifest exists and its lock file,
  if it requires one, also exists.\<close>

definition candidate_matches ::
    "world \<Rightarrow> string \<Rightarrow> (string \<times> string option \<times> string \<times> string) \<Rightarrow> bool" where
  "candidate_matches w repo_path c =
     (case c of (manifest, lock_file, name, setup_cmd) \<Rightarrow>
        isfile w (path_join repo_path manifest) \<and>
        (case lock_file of None \<Rightarrow> True | Some lf \<Rightarrow> isfile w (path_join repo_path lf)))"

definition candidate_manager :: "(string \<times> string option \<times> string \<times> string) \<Rightarrow> package_manager" where
  "candidate_manager c =
     (case c of (manifest, lock_file, name, setup_cmd) \<Rightarrow>
        \<lparr>pm_name = name, setupCommand = setup_cmd, lockFile = lock_file\<rparr>)"

subsection \<open>Script categories\<close>

text \<open>
  A token occurs in a string when some run of the string spells it, case ignored.
  The category of a script is the first one, in the order devServer, build, test,
  lint, that has a token occurring in the script name (for devServer, also in the
  command); the rank of a category is its place in that order, and entries are
  ordered by rank, then by name.
\<close>

definition upper_ascii :: "char \<Rightarrow> bool" where
  "upper_ascii c = (65 \<le> (of_char c :: nat) \<and> (of_char c :: nat) \<le> 90)"

definition same_letter :: "char \<Rightarrow> char \<Rightarrow> bool" where
  "same_letter c d =
     (c = d
      \<or> (upper_ascii c \<and> (of_char d :: nat) = of_char c + 32)
      \<or> (upper_ascii d \<and> (of_char c :: nat) = of_char d + 32))"

definition occurs_in :: "string \<Rightarrow> string \<Rightarrow> bool" where
  "occurs_in token s = (\<exists>u t v. s = u @ t @ v \<and> list_all2 same_letter t token)"

definition any_occurs :: "string list \<Rightarrow> string \<Rightarrow> bool" where
  "any_occurs tokens s = (\<exists>token \<in> set tokens. occurs_in token s)"

definition spec_category :: "string \<Rightarrow> string \<Rightarrow> string" where
  "spec_category name command =
     (if any_occurs DEV_NAME_PATTERNS name \<or> any_occurs DEV_CMD_PATTERNS command then ''devServer''
      else if any_occurs BUILD_PATTERNS name then ''build''
      else if any_occurs TEST_PATTERNS name then ''test''
      else if any_occurs LINT_PATTERNS name then ''lint''
      else ''other'')"

definition spec_rank :: "string \<Rightarrow> nat" where
  "spec_rank c =
     (if c = ''devServer'' then 0 else if c = ''build'' then 1 else if c = ''test'' then 2
      else if c = ''lint'' then 3 else 4)"

definition comes_before :: "script_entry \<Rightarrow> script_entry \<Rightarrow> bool" where
  "comes_before a b =
     (spec_rank (category a) < spec_rank (category b)
      \<or> (spec_rank (category a) = spec_rank (category b) \<and> se_name a \<le> se_name b))"

text \<open>A character of the tokens: a small letter, a digit, a hyphen or a space.\<close>

definition token_char :: "char \<Rightarrow> bool" where
  "token_char d =
     (let n = (of_char d :: nat)
      in (97 \<le> n \<and> n \<le> 122) \<or> (48 \<le> n \<and> n \<le> 57) \<or> n = 45 \<or> n = 32)"

definition script_triple :: "script_entry \<Rightarrow> string \<times> string \<times> string" where
  "script_triple e = (se_name e, se_command e, category e)"

subsection \<open>The ignore file\<close>

text \<open>
  A line holds the entry when, with the blank characters at both ends taken off, it
  is the name of the config directory, bare or with a trailing separator. The lines
  of a text are what lies between its newlines.
\<close>

definition blank :: "char \<Rightarrow> bool" where
  "blank c = ((of_char c :: nat) \<in> set [9, 10, 11, 12, 13, 28, 29, 30, 31, 32, 133, 160])"

definition entry_line :: "string \<Rightarrow> bool" where
  "entry_line l =
     (\<exists>a e b. l = a @ e @ b \<and> (\<forall>c \<in> set a. blank c) \<and> (\<forall>c \<in> set b. blank c)
        \<and> (e = ''.wtmux'' \<or> e = ''.wtmux/''))"

function text_lines :: "string \<Rightarrow> string list" where
  "text_lines t =
     (if CHR 0x0A \<in> set t
      then takeWhile (\<lambda>c. c \<noteq> CHR 0x0A) t # text_lines (tl (dropWhile (\<lambda>c. c \<noteq> CHR 0x0A) t))
      else [t])"
  by pat_completeness auto
termination
proof (relation "measure length")
  show "wf (measure length)" by simp
next
  fix t :: string
  assume "CHR 0x0A \<in> set t"
  then have "dropWhile (\<lambda>c. c \<noteq> CHR 0x0A) t \<noteq> []"
    by (simp add: dropWhile_eq_Nil_conv)
  then have "length (tl (dropWhile (\<lambda>c. c \<noteq> CHR 0x0A) t)) < length (dropWhile (\<lambda>c. c \<noteq> CHR 0x0A) t)"
    by (cases "dropWhile (\<lambda>c. c \<noteq> CHR 0x0A) t") simp_all
  also have "\<dots> \<le> length t"
    by (rule length_dropWhile_le)
  finally show "(tl (dropWhile (\<lambda>c. c \<noteq> CHR 0x0A) t), t) \<in> measure length"
    by simp
qed

definition entries :: "string \<Rightarrow> nat" where
  "entries t = length (filter entry_line (text_lines t))"

subsection \<open>The config file\<close>

text \<open>
  The config file and the temporary file of a repository, by their places below the
  repository root, and the text that is stored for a configuration.
\<close>

definition calls_before_replace :: "string \<Rightarrow> json \<Rightarrow> syscall list" where
  "calls_before_replace repo_path config =
     [Makedirs (path_join repo_path CONFIG_DIR), OpenW (config_path_of repo_path @ ''.tmp'')]
     @ map (\<lambda>c. Write (config_path_of repo_path @ ''.tmp'') [c]) (dumps_pretty config)
     @ [Write (config_path_of repo_path @ ''.tmp'') [CHR 0x0A]]"

definition config_file :: "world \<Rightarrow> string \<Rightarrow> path" where
  "config_file w repo_path = resolve w repo_path @ [''.wtmux'', ''config.json'']"

definition temp_file :: "world \<Rightarrow> string \<Rightarrow> path" where
  "temp_file w repo_path = resolve w repo_path @ [''.wtmux'', ''config.json.tmp'']"

definition config_text :: "json \<Rightarrow> string" where
  "config_text config = dumps_pretty config @ [CHR 0x0A]"

section \<open>Example inputs\<close>

definition no_proc :: "string list \<Rightarrow> string \<Rightarrow> (int \<times> string) option" where
  "no_proc args dir = None"

definition js_repo :: world where
  "js_repo =
     \<lparr>nodes = [([''r''], Dir True), ([''r'', ''.git''], Dir True),
               ([''r'', ''package.json''], File ''{}''),
               ([''r'', ''yarn.lock''], File []),
               ([''r'', ''Gemfile''], File [])],
      cwd = [], proc = no_proc\<rparr>"

definition scripts_obj :: json where
  "scripts_obj =
     JObj [(''name'', JStr ''demo''),
           (''scripts'',
            JObj [(''z-Dev'', JStr ''x''), (''a-test'', JStr ''jest''), (''Build'', JStr ''tsc''),
                  (''assets'', JStr ''WEBPACK SERVE''), (''build:dev-assets'', JStr ''webpack''),
                  (''fmt'', JStr ''prettier'')])]"

definition scripts_repo :: world where
  "scripts_repo =
     \<lparr>nodes = [([''r''], Dir True), ([''r'', ''package.json''], File (dumps_compact scripts_obj))],
      cwd = [], proc = no_proc\<rparr>"

definition scripts_loads :: "string \<Rightarrow> json option" where
  "scripts_loads t = (if t = dumps_compact scripts_obj then Some scripts_obj else None)"

definition yarn :: package_manager where
  "yarn = \<lparr>pm_name = ''yarn'', setupCommand = ''yarn install'', lockFile = Some ''yarn.lock''\<rparr>"

definition scripts_sorted :: "script_entry list" where
  "scripts_sorted =
     [\<lparr>se_name = ''assets'', se_command = ''WEBPACK SERVE'', runCommand = ''yarn assets'',
        category = ''devServer''\<rparr>,
      \<lparr>se_name = ''build:dev-assets'', se_command = ''webpack'',
        runCommand = ''yarn build:dev-assets'', category = ''devServer''\<rparr>,
      \<lparr>se_name = ''z-Dev'', se_command = ''x'', runCommand = ''yarn z-Dev'',
        category = ''devServer''\<rparr>,
      \<lparr>se_name = ''Build'', se_command = ''tsc'', runCommand = ''yarn Build'',
        category = ''build''\<rparr>,
      \<lparr>se_name = ''a-test'', se_command = ''jest'', runCommand = ''yarn a-test'',
        category = ''test''\<rparr>,
      \<lparr>se_name = ''fmt'', se_command = ''prettier'', runCommand = ''yarn fmt'',
        category = ''other''\<rparr>]"

definition ignore_dir_repo :: world where
  "ignore_dir_repo =
     \<lparr>nodes = [([''r''], Dir True), ([''r'', ''.git''], Dir True),
               ([''r'', ''.gitignore''], Dir True)],
      cwd = [], proc = no_proc\<rparr>"

definition ignore_repo :: "string \<Rightarrow> world" where
  "ignore_repo t =
     \<lparr>nodes = [([''r''], Dir True), ([''r'', ''.git''], Dir True),
               ([''r'', ''.gitignore''], File t)],
      cwd = [], proc = no_proc\<rparr>"

definition stored_repo :: world where
  "stored_repo =
     \<lparr>nodes = [([''r''], Dir True), ([''r'', ''.git''], Dir True),
               ([''r'', ''.wtmux''], Dir True),
               ([''r'', ''.wtmux'', ''config.json''], File (''{}'' @ [CHR 0x0A]))],
      cwd = [], proc = no_proc\<rparr>"

definition blocked_repo :: world where
  "blocked_repo =
     \<lparr>nodes = [([''r''], Dir True), ([''r'', ''.git''], Dir True),
               ([''r'', ''.wtmux''], Dir True),
               ([''r'', ''.wtmux'', ''config.json''], File (''{}'' @ [CHR 0x0A])),
               ([''r'', ''.wtmux'', ''config.json.tmp''], Dir True)],
      cwd = [], proc = no_proc\<rparr>"

definition small_config :: json where
  "small_config = JObj [(''setupCommands'', JArr [JStr ''npm i'']), (''envFilesToCopy'', JArr [])]"

definition small_config_text :: string where
  "small_config_text = ''{'' @ [CHR 0x0A] @ ''  '' @ [CHR 0x22] @ ''envFilesToCopy'' @ [CHR 0x22] @ '': [],'' @ [CHR 0x0A] @ ''  '' @ [CHR 0x22] @ ''setupCommands'' @ [CHR 0x22] @ '': ['' @ [CHR 0x0A] @ ''    '' @ [CHR 0x22] @ ''npm i'' @ [CHR 0x22, CHR 0x0A] @ ''  ]'' @ [CHR 0x0A] @ ''}'' @ [CHR 0x0A]"

section \<open>Properties\<close>

subsection \<open>Files\<close>

lemma resolve_put_node [simp]: "resolve (put_node w p n) s = resolve w s"
  by (simp add: resolve_def put_node_def)

lemma resolve_del_node [simp]: "resolve (del_node w p) s = resolve w s"
  by (simp add: resolve_def del_node_def)

lemma node_at_put_node:
  "node_at (put_node w p n) q = (if q = [] then Some (Dir True) else if q = p then Some n else node_at w q)"
  by (simp add: node_at_def put_node_def update_conv')

lemma node_at_del_node:
  "node_at (del_node w p) q = (if q = [] then Some (Dir True) else if q = p then None else node_at w q)"
  by (simp add: node_at_def del_node_def delete_conv')

lemma split_on_nonempty [simp]: "split_on c s \<noteq> []"
  by (induction s) (auto split: list.splits)

lemma split_on_append: "split_on c (a @ c # b) = split_on c a @ split_on c b"
  by (induction a) (auto split: list.splits)

lemma split_on_plain: "c \<notin> set s \<Longrightarrow> split_on c s = [s]"
  by (induction s) auto

lemma norm_step_plain: "plain_name n \<Longrightarrow> norm_step acc n = acc @ [n]"
  by (simp add: norm_step_def plain_name_def)

lemma plain_not_abs: "plain_name n \<Longrightarrow> \<not> startswith (n @ s) ''/''"
  by (cases n) (auto simp: plain_name_def startswith_def)

lemma startswith_append: "a \<noteq> [] \<Longrightarrow> startswith (a @ b) ''/'' = startswith a ''/''"
  by (cases a) (auto simp: startswith_def)

lemma resolve_path_join:
  assumes n: "plain_name n"
  shows "resolve w (path_join a n) = resolve w a @ [n]"
proof -
  have sn: "split_on CHR ''/'' n = [n]"
    using n by (simp add: split_on_plain plain_name_def)
  have na: "\<not> startswith n ''/''"
    using plain_not_abs[OF n, of "[]"] by simp
  show ?thesis
  proof (cases "a = []")
    case True
    have e: "norm_step (cwd w) [] = cwd w"
      by (simp add: norm_step_def)
    have "resolve w n = cwd w @ [n]"
      using na sn by (simp add: resolve_def norm_step_plain[OF n])
    moreover have "resolve w [] = cwd w"
      by (simp add: resolve_def startswith_def e)
    moreover have "path_join a n = n"
      using True na by (simp add: path_join_def)
    ultimately show ?thesis
      using True by simp
  next
    case False
    show ?thesis
    proof (cases "endswith a ''/''")
      case True
      then obtain a0 where a: "a = a0 @ ''/''"
        by (auto simp: endswith_def suffix_def)
      have 1: "split_on CHR ''/'' (a0 @ CHR ''/'' # n) = split_on CHR ''/'' a0 @ [n]"
        by (simp add: split_on_append sn)
      have 2: "split_on CHR ''/'' (a0 @ CHR ''/'' # []) = split_on CHR ''/'' a0 @ [[]]"
        by (simp add: split_on_append)
      have 3: "startswith (a @ n) ''/'' = startswith a ''/''"
        using False by (rule startswith_append)
      have "path_join a n = a @ n"
        using True na by (simp add: path_join_def)
      moreover have "norm_step acc [] = acc" for acc
        by (simp add: norm_step_def)
      ultimately show ?thesis
        using 1 2 3 by (simp add: resolve_def a norm_step_plain[OF n])
    next
      case nes: False
      have 1: "split_on CHR ''/'' (a @ CHR ''/'' # n) = split_on CHR ''/'' a @ [n]"
        by (simp add: split_on_append sn)
      have 3: "startswith (a @ ''/'' @ n) ''/'' = startswith a ''/''"
        using False by (rule startswith_append)
      have "path_join a n = a @ ''/'' @ n"
        using nes False na by (simp add: path_join_def)
      then show ?thesis
        using 1 3 n by (simp add: resolve_def norm_step_plain)
    qed
  qed
qed

lemma path_join_suffix: "plain_name b \<Longrightarrow> path_join a (b @ s) = path_join a b @ s"
  using plain_not_abs[of b s] plain_not_abs[of b "[]"] by (simp add: path_join_def)

lemma plain_names: "plain_name CONFIG_DIR" "plain_name CONFIG_FILE" "plain_name (CONFIG_FILE @ ''.tmp'')"
  "plain_name ''.gitignore''" "plain_name ''.git''"
  by (simp_all add: plain_name_def CONFIG_DIR_def CONFIG_FILE_def)

lemma resolve_config_path:
  "resolve w (config_path_of repo_path) = resolve w repo_path @ [CONFIG_DIR, CONFIG_FILE]"
  by (simp add: config_path_of_def resolve_path_join plain_names)

lemma resolve_tmp_path:
  "resolve w (config_path_of repo_path @ ''.tmp'') = resolve w repo_path @ [CONFIG_DIR, CONFIG_FILE @ ''.tmp'']"
  by (simp add: config_path_of_def path_join_suffix[symmetric] resolve_path_join plain_names)

lemma open_w_result:
  assumes "open_w w p = Inr w1"
  shows "w1 = put_node w (resolve w p) (File []) \<and> resolve w p \<noteq> []"
  using assms
  by (auto simp: open_w_def Let_def split: if_splits option.splits node.splits)

lemma cwd_put_node [simp]: "cwd (put_node w p n) = cwd w"
  by (simp add: put_node_def)

lemma cwd_del_node [simp]: "cwd (del_node w p) = cwd w"
  by (simp add: del_node_def)

lemma resolve_same_cwd: "cwd w' = cwd w \<Longrightarrow> resolve w' s = resolve w s"
  by (simp add: resolve_def)

lemma node_at_root [simp]: "node_at w [] = Some (Dir True)"
  by (simp add: node_at_def)

lemma make_path_frame:
  "make_path w p base cs = Inr w'
    \<Longrightarrow> cwd w' = cwd w \<and> (\<forall>q. length base + length cs < length q \<longrightarrow> node_at w' q = node_at w q)"
proof (induction cs arbitrary: w base)
  case Nil
  then show ?case by simp
next
  case (Cons c cs)
  show ?case
  proof (cases "node_at w (base @ [c])")
    case None
    with Cons.prems have "make_path (put_node w (base @ [c]) (Dir True)) p (base @ [c]) cs = Inr w'"
      by simp
    from Cons.IH[OF this] show ?thesis
      by (auto simp: node_at_put_node)
  next
    case (Some n)
    with Cons.prems have "make_path w p (base @ [c]) cs = Inr w'"
      by (cases n) simp_all
    from Cons.IH[OF this] show ?thesis
      by auto
  qed
qed

lemma write_str_frame:
  "cwd (write_str w p s) = cwd w
   \<and> (q \<noteq> resolve w p \<longrightarrow> node_at (write_str w p s) q = node_at w q)"
  by (auto simp: write_str_def node_at_put_node split: option.splits node.splits)

lemma write_str_file:
  "node_at w (resolve w p) = Some (File t) \<Longrightarrow> resolve w p \<noteq> []
    \<Longrightarrow> node_at (write_str w p s) (resolve w p) = Some (File (t @ s))"
  by (simp add: write_str_def node_at_put_node)

text \<open>The calls of \<open>write_config\<close> before the last one: none of them is about \<open>q\<close>.\<close>

lemma exec_call_frame:
  assumes "exec_call w c = Inr w'"
    and "c = Makedirs d \<or> c = OpenW t \<or> (\<exists>s. c = Write t s)"
    and "length (resolve w d) < length q" and "resolve w t \<noteq> q"
  shows "node_at w' q = node_at w q \<and> cwd w' = cwd w"
  using assms(2)
proof (elim disjE exE)
  assume "c = Makedirs d"
  with assms(1) have "make_path w d [] (resolve w d) = Inr w'"
    by (simp add: makedirs_def)
  from make_path_frame[OF this] assms(3) show ?thesis by simp
next
  assume "c = OpenW t"
  with assms(1) open_w_result have "w' = put_node w (resolve w t) (File [])"
    by simp
  with assms(4) show ?thesis
    by (simp add: node_at_put_node)
next
  fix s assume "c = Write t s"
  with assms(1) have "w' = write_str w t s" by auto
  with write_str_frame[of w t s q] assms(4) show ?thesis by simp
qed

lemma run_calls_frame:
  assumes "\<forall>c \<in> set cs. c = Makedirs d \<or> c = OpenW t \<or> (\<exists>s. c = Write t s)"
    and "length (resolve w d) < length q" and "resolve w t \<noteq> q"
    and "run_calls w cs = (r, w')"
  shows "node_at w' q = node_at w q \<and> cwd w' = cwd w"
  using assms
proof (induction cs arbitrary: w)
  case Nil
  then show ?case by simp
next
  case (Cons c cs)
  show ?case
  proof (cases "exec_call w c")
    case (Inl e)
    with Cons.prems show ?thesis by simp
  next
    case (Inr w1)
    from Cons.prems(1) have k: "c = Makedirs d \<or> c = OpenW t \<or> (\<exists>s. c = Write t s)"
      by simp
    from exec_call_frame[OF Inr k Cons.prems(2,3)]
    have f: "node_at w1 q = node_at w q" and c: "cwd w1 = cwd w"
      by simp_all
    from Cons.prems(4) Inr have "run_calls w1 cs = (r, w')" by simp
    moreover from Cons.prems(1) have "\<forall>c \<in> set cs. c = Makedirs d \<or> c = OpenW t \<or> (\<exists>s. c = Write t s)"
      by simp
    ultimately have "node_at w' q = node_at w1 q \<and> cwd w' = cwd w1"
      using Cons.IH[of w1] Cons.prems(2,3) by (simp add: resolve_same_cwd[OF c])
    with f c show ?thesis by simp
  qed
qed

lemma run_calls_append:
  "run_calls w (xs @ ys) =
     (case run_calls w xs of (None, w1) \<Rightarrow> run_calls w1 ys | (Some e, w1) \<Rightarrow> (Some e, w1))"
  by (induction xs arbitrary: w) (auto split: sum.splits)

lemma run_writes:
  assumes "node_at w (resolve w t) = Some (File t0)" and "resolve w t \<noteq> []"
  shows "\<exists>w'. run_calls w (map (\<lambda>c. Write t [c]) str) = (None, w')
           \<and> node_at w' (resolve w t) = Some (File (t0 @ str)) \<and> cwd w' = cwd w"
  using assms
proof (induction str arbitrary: w t0)
  case Nil
  then show ?case by simp
next
  case (Cons c str)
  let ?w1 = "write_str w t [c]"
  have c1: "cwd ?w1 = cwd w"
    using write_str_frame[of w t "[c]"] by simp
  then have r: "resolve ?w1 t = resolve w t"
    by (rule resolve_same_cwd)
  have "node_at ?w1 (resolve ?w1 t) = Some (File (t0 @ [c]))"
    using write_str_file[OF Cons.prems] r by simp
  from Cons.IH[OF this] Cons.prems(2) r c1 show ?case
    by auto
qed

subsection \<open>Package manager detection\<close>

lemma detect_in_find:
  "detect_in w repo_path cs = map_option candidate_manager (find (candidate_matches w repo_path) cs)"
proof (induction cs)
  case Nil
  show ?case by simp
next
  case (Cons c cs)
  obtain manifest lock_file name setup_cmd where c: "c = (manifest, lock_file, name, setup_cmd)"
    by (cases c) auto
  show ?case
    using Cons.IH by (cases lock_file) (simp_all add: c candidate_matches_def candidate_manager_def)
qed

text \<open>
  C6. \<open>detect_package_manager\<close> returns the first entry of the table, from the top, whose
  manifest exists in the repository root and whose lock file, when the entry requires
  one, exists too. Hence: when \<open>package.json\<close> exists the result is a JS manager,
  whatever other manifests are there, and it is \<open>npm\<close> only when none of the lock files
  of bun, pnpm and yarn exists; when no manifest of the table exists there is no
  package manager.
\<close>

theorem detect_package_manager_first_match:
  "detect_package_manager w repo_path =
      map_option candidate_manager
        (find (candidate_matches w repo_path) PACKAGE_MANAGER_CANDIDATES)
   \<and> (isfile w (path_join repo_path ''package.json'') \<longrightarrow>
        (\<exists>m. detect_package_manager w repo_path = Some m \<and> pm_name m \<in> set JS_MANAGERS
           \<and> (pm_name m = ''npm'' \<longleftrightarrow>
                \<not> isfile w (path_join repo_path ''bun.lockb'')
              \<and> \<not> isfile w (path_join repo_path ''bun.lock'')
              \<and> \<not> isfile w (path_join repo_path ''pnpm-lock.yaml'')
              \<and> \<not> isfile w (path_join repo_path ''yarn.lock''))))
   \<and> ((\<forall>c \<in> set PACKAGE_MANAGER_CANDIDATES. \<not> isfile w (path_join repo_path (fst c)))
        \<longrightarrow> detect_package_manager w repo_path = None)"
proof (intro conjI)
  show "detect_package_manager w repo_path =
      map_option candidate_manager
        (find (candidate_matches w repo_path) PACKAGE_MANAGER_CANDIDATES)"
    by (simp add: detect_package_manager_def detect_in_find)
  show "isfile w (path_join repo_path ''package.json'') \<longrightarrow>
        (\<exists>m. detect_package_manager w repo_path = Some m \<and> pm_name m \<in> set JS_MANAGERS
           \<and> (pm_name m = ''npm'' \<longleftrightarrow>
                \<not> isfile w (path_join repo_path ''bun.lockb'')
              \<and> \<not> isfile w (path_join repo_path ''bun.lock'')
              \<and> \<not> isfile w (path_join repo_path ''pnpm-lock.yaml'')
              \<and> \<not> isfile w (path_join repo_path ''yarn.lock'')))"
    by (simp add: detect_package_manager_def PACKAGE_MANAGER_CANDIDATES_def JS_MANAGERS_def)
  show "(\<forall>c \<in> set PACKAGE_MANAGER_CANDIDATES. \<not> isfile w (path_join repo_path (fst c)))
        \<longrightarrow> detect_package_manager w repo_path = None"
    by (simp add: detect_package_manager_def PACKAGE_MANAGER_CANDIDATES_def)
qed

lemma js_repo_files:
  "isfile js_repo (path_join ''/r'' ''package.json'')"
  "isfile js_repo (path_join ''/r'' ''yarn.lock'')"
  "isfile js_repo (path_join ''/r'' ''Gemfile'')"
  "\<not> isfile js_repo (path_join ''/r'' ''bun.lockb'')"
  by code_simp+

theorem detect_package_manager_first_match_witness:
  "isfile js_repo (path_join ''/r'' ''package.json'')
   \<and> isfile js_repo (path_join ''/r'' ''Gemfile'')
   \<and> detect_package_manager js_repo ''/r''
       = Some \<lparr>pm_name = ''yarn'', setupCommand = ''yarn install'', lockFile = Some ''yarn.lock''\<rparr>
   \<and> (\<exists>m. detect_package_manager js_repo ''/r'' = Some m \<and> pm_name m \<noteq> ''npm'')"
proof -
  have d: "detect_package_manager js_repo ''/r''
       = Some \<lparr>pm_name = ''yarn'', setupCommand = ''yarn install'', lockFile = Some ''yarn.lock''\<rparr>"
    by code_simp
  note js = detect_package_manager_first_match [of js_repo "''/r''", THEN conjunct2, THEN conjunct1]
  from js js_repo_files(1,2)
  have "\<exists>m. detect_package_manager js_repo ''/r'' = Some m \<and> pm_name m \<noteq> ''npm''"
    by blast
  with d js_repo_files show ?thesis by simp
qed

subsection \<open>Script categories\<close>

lemma lower_char_token:
  assumes "token_char d"
  shows "lower_char c = d \<longleftrightarrow> same_letter c d"
proof -
  let ?n = "of_char c :: nat" and ?m = "of_char d :: nat"
  have lt: "?n < 256" by simp
  have eq: "(c = d) = (?n = ?m)" by simp
  have up: "(char_of (?n + 32) = d) = ((?n + 32) mod 256 = ?m)"
    by (metis of_char_of char_of_char)
  show ?thesis
    using assms lt
    unfolding lower_char_def same_letter_def upper_ascii_def token_char_def Let_def eq
    by (auto simp: up)
qed

lemma str_in_sublist: "str_in p s = sublist p s"
  by (induction s) (auto simp: sublist_Cons_right)

lemma lower_eq_token:
  "\<forall>d \<in> set p. token_char d \<Longrightarrow> (lower t = p) = list_all2 same_letter t p"
proof (induction t arbitrary: p)
  case Nil
  show ?case by (auto simp: lower_def)
next
  case (Cons c t)
  show ?case
  proof (cases p)
    case Nil
    then show ?thesis by (simp add: lower_def)
  next
    case (Cons d p')
    with Cons.prems have d: "token_char d" and p': "\<forall>d \<in> set p'. token_char d"
      by simp_all
    from Cons.IH[OF p'] lower_char_token[OF d, of c] show ?thesis
      by (simp add: Cons lower_def)
  qed
qed

lemma sublist_lower_token:
  assumes "\<forall>d \<in> set p. token_char d"
  shows "sublist p (lower s) = occurs_in p s"
proof
  assume "sublist p (lower s)"
  then obtain a b where "map lower_char s = a @ p @ b"
    by (auto simp: sublist_def lower_def)
  then obtain u r where s: "s = u @ r" and "p @ b = map lower_char r"
    by (auto simp: map_eq_append_conv)
  then obtain t v where r: "r = t @ v" and "p = map lower_char t"
    by (metis map_eq_append_conv)
  then have "lower t = p" by (simp add: lower_def)
  with lower_eq_token[OF assms, of t] have "list_all2 same_letter t p" by simp
  with s r show "occurs_in p s"
    unfolding occurs_in_def by blast
next
  assume "occurs_in p s"
  then obtain u t v where s: "s = u @ t @ v" and "list_all2 same_letter t p"
    unfolding occurs_in_def by blast
  with lower_eq_token[OF assms, of t] have "lower t = p" by simp
  with s have "lower s = lower u @ p @ lower v"
    by (auto simp: lower_def)
  then show "sublist p (lower s)"
    unfolding sublist_def by blast
qed

lemma any_in_occurs:
  assumes "\<forall>p \<in> set ps. \<forall>d \<in> set p. token_char d"
  shows "any_in ps (lower s) = any_occurs ps s"
  using assms sublist_lower_token
  by (auto simp: any_in_def any_occurs_def list_ex_iff str_in_sublist)

lemma tokens_plain:
  "\<forall>p \<in> set DEV_NAME_PATTERNS. \<forall>d \<in> set p. token_char d"
  "\<forall>p \<in> set DEV_CMD_PATTERNS. \<forall>d \<in> set p. token_char d"
  "\<forall>p \<in> set BUILD_PATTERNS. \<forall>d \<in> set p. token_char d"
  "\<forall>p \<in> set TEST_PATTERNS. \<forall>d \<in> set p. token_char d"
  "\<forall>p \<in> set LINT_PATTERNS. \<forall>d \<in> set p. token_char d"
  by (simp_all add: DEV_NAME_PATTERNS_def DEV_CMD_PATTERNS_def BUILD_PATTERNS_def
        TEST_PATTERNS_def LINT_PATTERNS_def token_char_def)

lemma categorize_script_spec: "categorize_script name command = spec_category name command"
  by (simp add: categorize_script_def spec_category_def any_in_occurs tokens_plain)

lemma category_rank_spec: "category_rank c = spec_rank c"
  by (simp add: category_rank_def CATEGORY_ORDER_def spec_rank_def)

lemma sort_scripts_sorted: "sorted_wrt comes_before (sort_scripts r)"
proof -
  let ?key = "\<lambda>s. (category_rank (category s), se_name s)"
  have "sorted (map ?key (sort_key ?key r))"
    by (rule sorted_sort_key)
  then have "sorted_wrt (\<lambda>a b. ?key a \<le> ?key b) (sort_key ?key r)"
    by (simp add: sorted_wrt_map)
  moreover have "(?key a \<le> ?key b) = comes_before a b" for a b
    by (auto simp: less_eq_prod_def comes_before_def category_rank_spec)
  ultimately show ?thesis
    by (simp add: sort_scripts_def)
qed

lemma script_entries_strings:
  "script_entries rp (map (\<lambda>nc. (fst nc, JStr (snd nc))) ncs)
     = Inr (map (\<lambda>nc. \<lparr>se_name = fst nc, se_command = snd nc, runCommand = rp @ '' '' @ fst nc,
                         category = categorize_script (fst nc) (snd nc)\<rparr>) ncs)"
  by (induction ncs) (simp_all add: pbind_def)

lemma parse_scripts_strings:
  assumes pm: "pm_name m \<in> set JS_MANAGERS"
    and f: "read_text w (path_join repo_path ''package.json'') = Inr str"
    and l: "loads str = Some (JObj pkg)"
    and s: "map_of pkg ''scripts'' = Some (JObj (map (\<lambda>nc. (fst nc, JStr (snd nc))) ncs))"
  shows "parse_scripts loads w repo_path (Some m)
           = Inr (sort_scripts
                   (map (\<lambda>nc. \<lparr>se_name = fst nc, se_command = snd nc,
                                runCommand = run_prefix_of (pm_name m) @ '' '' @ fst nc,
                                category = categorize_script (fst nc) (snd nc)\<rparr>) ncs))"
  using pm by (simp add: parse_scripts_def f l s py_get_def dict_get_def pbind_def script_entries_strings)

lemma read_package_json:
  "node_at w (resolve w repo_path @ [''package.json'']) = Some (File str)
    \<Longrightarrow> read_text w (path_join repo_path ''package.json'') = Inr str"
  by (simp add: read_text_def resolve_path_join plain_name_def)

text \<open>
  C7. \<open>categorize_script\<close> returns the first category, in the order devServer, build,
  test, lint, other, one of whose tokens occurs in the script name, case ignored
  (for devServer also: one of the dev tool invocations occurs in the command). A
  script named \<open>build:dev-assets\<close> is a devServer, whatever its command. For a
  manifest whose scripts are all strings, \<open>parse_scripts\<close> returns one entry for each
  script, with that category, ordered by category rank and then by script name.
\<close>

theorem categorize_script_first_category:
  "categorize_script name command = spec_category name command
   \<and> categorize_script ''build:dev-assets'' command = ''devServer''
   \<and> (pm_name m \<in> {''npm'', ''yarn'', ''pnpm'', ''bun''} \<longrightarrow>
        node_at w (resolve w repo_path @ [''package.json'']) = Some (File str) \<longrightarrow>
        loads str = Some (JObj pkg) \<longrightarrow>
        map_of pkg ''scripts'' = Some (JObj (map (\<lambda>nc. (fst nc, JStr (snd nc))) ncs)) \<longrightarrow>
        (\<exists>es. parse_scripts loads w repo_path (Some m) = Inr es
           \<and> sorted_wrt comes_before es
           \<and> mset (map script_triple es)
               = mset (map (\<lambda>nc. (fst nc, snd nc, spec_category (fst nc) (snd nc))) ncs)))"
proof (intro conjI impI)
  show "categorize_script name command = spec_category name command"
    by (rule categorize_script_spec)
  show "categorize_script ''build:dev-assets'' command = ''devServer''"
    by (simp add: categorize_script_def any_in_def DEV_NAME_PATTERNS_def lower_def lower_char_def)
next
  assume pm: "pm_name m \<in> {''npm'', ''yarn'', ''pnpm'', ''bun''}"
    and f: "node_at w (resolve w repo_path @ [''package.json'']) = Some (File str)"
    and l: "loads str = Some (JObj pkg)"
    and s: "map_of pkg ''scripts'' = Some (JObj (map (\<lambda>nc. (fst nc, JStr (snd nc))) ncs))"
  let ?r = "map (\<lambda>nc. \<lparr>se_name = fst nc, se_command = snd nc,
                          runCommand = run_prefix_of (pm_name m) @ '' '' @ fst nc,
                          category = categorize_script (fst nc) (snd nc)\<rparr>) ncs"
  from pm have js: "pm_name m \<in> set JS_MANAGERS"
    by (auto simp: JS_MANAGERS_def)
  have p: "parse_scripts loads w repo_path (Some m) = Inr (sort_scripts ?r)"
    using js read_package_json[OF f] l s
    by (rule parse_scripts_strings[where loads = loads and str = str and pkg = pkg])
  have "mset (map script_triple (sort_scripts ?r)) = mset (map script_triple ?r)"
    by (simp only: sort_scripts_def mset_map mset_sort)
  also have "map script_triple ?r = map (\<lambda>nc. (fst nc, snd nc, spec_category (fst nc) (snd nc))) ncs"
    by (simp add: script_triple_def categorize_script_spec)
  finally show "\<exists>es. parse_scripts loads w repo_path (Some m) = Inr es
           \<and> sorted_wrt comes_before es
           \<and> mset (map script_triple es)
               = mset (map (\<lambda>nc. (fst nc, snd nc, spec_category (fst nc) (snd nc))) ncs)"
    using p sort_scripts_sorted by blast
qed

lemma scripts_parsed: "parse_scripts scripts_loads scripts_repo ''/r'' (Some yarn) = Inr scripts_sorted"
  by code_simp

theorem categorize_script_first_category_witness:
  "parse_scripts scripts_loads scripts_repo ''/r'' (Some yarn) = Inr scripts_sorted
   \<and> sorted_wrt comes_before scripts_sorted
   \<and> map se_name scripts_sorted
       = [''assets'', ''build:dev-assets'', ''z-Dev'', ''Build'', ''a-test'', ''fmt'']
   \<and> map category scripts_sorted
       = [''devServer'', ''devServer'', ''devServer'', ''build'', ''test'', ''other'']
   \<and> map (\<lambda>nc. spec_category (fst nc) (snd nc))
         [(''DEV'', ''x''), (''Compile'', ''Next Dev''), (''Lint:Fix'', ''eslint''),
          (''unit-TEST'', ''jest''), (''test'', ''vitest run''), (''deploy'', ''sh d.sh''),
          (''BUNDLE'', ''x''), (''Type-Check'', ''tsc'')]
       = [''devServer'', ''devServer'', ''lint'', ''test'', ''devServer'', ''other'',
          ''build'', ''lint'']"
proof -
  note t = categorize_script_first_category
  have f: "node_at scripts_repo (resolve scripts_repo ''/r'' @ [''package.json''])
             = Some (File (dumps_compact scripts_obj))"
    by code_simp
  have l: "scripts_loads (dumps_compact scripts_obj) = Some scripts_obj"
    by (simp add: scripts_loads_def)
  obtain es where es: "parse_scripts scripts_loads scripts_repo ''/r'' (Some yarn) = Inr es"
    and so: "sorted_wrt comes_before es"
    using t[of _ _ yarn scripts_repo "''/r''" "dumps_compact scripts_obj" scripts_loads
            "[(''name'', JStr ''demo''),
           (''scripts'',
            JObj [(''z-Dev'', JStr ''x''), (''a-test'', JStr ''jest''), (''Build'', JStr ''tsc''),
                  (''assets'', JStr ''WEBPACK SERVE''), (''build:dev-assets'', JStr ''webpack''),
                  (''fmt'', JStr ''prettier'')])]"
            "[(''z-Dev'', ''x''), (''a-test'', ''jest''), (''Build'', ''tsc''),
              (''assets'', ''WEBPACK SERVE''), (''build:dev-assets'', ''webpack''),
              (''fmt'', ''prettier'')]"] f l
    by (auto simp: yarn_def scripts_obj_def)
  have c: "map (\<lambda>nc. categorize_script (fst nc) (snd nc))
         [(''DEV'', ''x''), (''Compile'', ''Next Dev''), (''Lint:Fix'', ''eslint''),
          (''unit-TEST'', ''jest''), (''test'', ''vitest run''), (''deploy'', ''sh d.sh''),
          (''BUNDLE'', ''x''), (''Type-Check'', ''tsc'')]
       = [''devServer'', ''devServer'', ''lint'', ''test'', ''devServer'', ''other'',
          ''build'', ''lint'']"
    by code_simp
  from es so scripts_parsed have "sorted_wrt comes_before scripts_sorted"
    by simp
  with scripts_parsed c show ?thesis
    by (simp add: scripts_sorted_def t[THEN conjunct1, symmetric])
qed

subsection \<open>The ignore file\<close>

lemma text_lines_Nil: "text_lines [] = [[]]"
  by simp

lemma text_lines_newline: "text_lines (CHR 0x0A # s) = [] # text_lines s"
  by simp

lemma text_lines_other:
  assumes "c \<noteq> CHR 0x0A"
  shows "text_lines (c # s) = (c # hd (text_lines s)) # tl (text_lines s)"
proof (cases "CHR 0x0A \<in> set s")
  case True
  then show ?thesis
    using assms by (subst text_lines.simps, subst (2 3) text_lines.simps) simp
next
  case False
  then show ?thesis
    using assms by (subst text_lines.simps, subst (2 3) text_lines.simps) simp
qed

lemmas [simp del] = text_lines.simps

lemma split_on_text_lines: "split_on CHR 0x0A t = text_lines t"
proof (induction t)
  case Nil
  show ?case by (simp add: text_lines_Nil)
next
  case (Cons c t)
  show ?case
  proof (cases "c = CHR 0x0A")
    case True
    then show ?thesis by (simp add: Cons.IH text_lines_newline)
  next
    case False
    have "text_lines t \<noteq> []"
      using Cons.IH split_on_nonempty[of "CHR 0x0A" t] by simp
    then show ?thesis
      using False Cons.IH by (cases "text_lines t") (simp_all add: text_lines_other)
  qed
qed

lemma is_space_blank: "is_space c = blank c"
proof -
  have "(of_char c :: nat) < 256" by simp
  then show ?thesis
    unfolding is_space_def blank_def Let_def by auto
qed

lemma strip_decompose:
  "\<exists>a b. l = a @ strip l @ b \<and> (\<forall>c \<in> set a. is_space c) \<and> (\<forall>c \<in> set b. is_space c)"
proof -
  let ?m = "dropWhile is_space l"
  let ?k = "rev ?m"
  have 1: "l = takeWhile is_space l @ ?m" by simp
  have "?m = rev ?k" by simp
  also have "\<dots> = rev (takeWhile is_space ?k @ dropWhile is_space ?k)"
    by (simp only: takeWhile_dropWhile_id)
  also have "\<dots> = rev (dropWhile is_space ?k) @ rev (takeWhile is_space ?k)"
    by (rule rev_append)
  also have "rev (dropWhile is_space ?k) = strip l"
    by (simp only: strip_def)
  finally have 2: "?m = strip l @ rev (takeWhile is_space ?k)" .
  have 3: "\<forall>c \<in> set (takeWhile is_space l). is_space c"
    by (auto dest: set_takeWhileD)
  have 4: "\<forall>c \<in> set (rev (takeWhile is_space ?k)). is_space c"
    by (auto dest: set_takeWhileD)
  from 1 2 have "l = takeWhile is_space l @ strip l @ rev (takeWhile is_space ?k)"
    by metis
  with 3 4 show ?thesis by blast
qed

lemma strip_compose:
  assumes "\<forall>c \<in> set a. is_space c" and "\<forall>c \<in> set b. is_space c"
    and "e \<noteq> []" and "\<not> is_space (hd e)" and "\<not> is_space (last e)"
  shows "strip (a @ e @ b) = e"
proof -
  have "dropWhile is_space (a @ e @ b) = dropWhile is_space (e @ b)"
    by (rule dropWhile_append2) (use assms(1) in auto)
  also have "\<dots> = e @ b"
    using assms(3,4) by (cases e) simp_all
  finally have 1: "dropWhile is_space (a @ e @ b) = e @ b" .
  have "dropWhile is_space (rev b @ rev e) = dropWhile is_space (rev e)"
    by (rule dropWhile_append2) (use assms(2) in auto)
  also have "\<dots> = rev e"
    using assms(3,5) by (cases e rule: rev_cases) simp_all
  finally have 2: "dropWhile is_space (rev b @ rev e) = rev e" .
  show ?thesis
    by (simp add: strip_def 1 2)
qed

lemma is_entry_line_spec: "is_entry_line l = entry_line l"
proof
  assume "is_entry_line l"
  then have e: "strip l = ''.wtmux'' \<or> strip l = ''.wtmux/''"
    by (simp add: is_entry_line_def)
  from strip_decompose[of l] obtain a b where
    "l = a @ strip l @ b" "\<forall>c \<in> set a. blank c" "\<forall>c \<in> set b. blank c"
    by (auto simp: is_space_blank)
  with e show "entry_line l"
    unfolding entry_line_def by blast
next
  assume "entry_line l"
  then obtain a e b where l: "l = a @ e @ b" and a: "\<forall>c \<in> set a. is_space c"
    and b: "\<forall>c \<in> set b. is_space c" and e: "e = ''.wtmux'' \<or> e = ''.wtmux/''"
    unfolding entry_line_def by (auto simp: is_space_blank)
  have n: "\<not> is_space CHR ''.''" "\<not> is_space CHR ''x''" "\<not> is_space CHR ''/''"
    by (simp_all add: is_space_def)
  from e have "e \<noteq> [] \<and> \<not> is_space (hd e) \<and> \<not> is_space (last e)"
    using n by auto
  with strip_compose[OF a b] have "strip l = e"
    by (simp add: l)
  with e show "is_entry_line l"
    by (simp add: is_entry_line_def)
qed

lemma has_entry_entries: "list_ex is_entry_line (split_on CHR 0x0A t) = (0 < entries t)"
  by (simp add: entries_def split_on_text_lines list_ex_iff filter_empty_conv is_entry_line_spec)

lemma entry_line_literals: "entry_line ''.wtmux''" "\<not> entry_line []"
proof -
  have "''.wtmux'' = [] @ ''.wtmux'' @ []" by simp
  then show "entry_line ''.wtmux''"
    unfolding entry_line_def by (intro exI conjI) (assumption, simp_all)
  show "\<not> entry_line []"
    by (simp add: entry_line_def)
qed

lemma text_lines_append:
  "text_lines (a @ CHR 0x0A # b) = text_lines a @ text_lines b"
  by (simp add: split_on_text_lines[symmetric] split_on_append)

lemma text_lines_plain: "CHR 0x0A \<notin> set s \<Longrightarrow> text_lines s = [s]"
  by (simp add: split_on_text_lines[symmetric] split_on_plain)

lemma entries_appended:
  assumes "entries old = 0"
  shows "entries (if \<exists>t0. old = t0 @ [CHR 0x0A] then old @ ''.wtmux'' @ [CHR 0x0A]
                  else old @ [CHR 0x0A] @ ''.wtmux'' @ [CHR 0x0A]) = 1"
proof (cases "\<exists>t0. old = t0 @ [CHR 0x0A]")
  case True
  then obtain t0 where t: "old = t0 @ [CHR 0x0A]" by blast
  have "text_lines old = text_lines t0 @ [[]]"
    using text_lines_append[of t0 "[]"] by (simp add: t text_lines_plain)
  with assms have z: "filter entry_line (text_lines t0) = []"
    by (simp add: entries_def)
  have "text_lines (t0 @ CHR 0x0A # ''.wtmux'' @ CHR 0x0A # []) = text_lines t0 @ [''.wtmux'', []]"
    by (simp add: text_lines_append text_lines_append[of "''.wtmux''" "[]", simplified] text_lines_plain)
  then show ?thesis
    using True z entry_line_literals by (simp add: entries_def t)
next
  case False
  from assms have z: "filter entry_line (text_lines old) = []"
    by (simp add: entries_def)
  have "text_lines (old @ CHR 0x0A # ''.wtmux'' @ CHR 0x0A # []) = text_lines old @ [''.wtmux'', []]"
    by (simp add: text_lines_append text_lines_append[of "''.wtmux''" "[]", simplified] text_lines_plain)
  then show ?thesis
    using False z entry_line_literals by (simp add: entries_def)
qed

lemma ensure_gitignore_steps:
  assumes d: "node_at w (resolve w repo_path) = Some (Dir l)"
    and f: "node_at w (resolve w repo_path @ [''.gitignore'']) = Some (File old)
            \<or> node_at w (resolve w repo_path @ [''.gitignore'']) = None \<and> old = []"
  shows "ensure_gitignore w repo_path =
           (if 0 < entries old then (Inr False, w)
            else (Inr True,
                  put_node (put_node w (resolve w repo_path @ [''.gitignore'']) (File []))
                    (resolve w repo_path @ [''.gitignore''])
                    (File (if \<exists>t0. old = t0 @ [CHR 0x0A] then old @ ''.wtmux'' @ [CHR 0x0A]
                           else old @ [CHR 0x0A] @ ''.wtmux'' @ [CHR 0x0A]))))"
proof -
  let ?gp = "path_join repo_path ''.gitignore''"
  let ?ip = "resolve w repo_path @ [''.gitignore'']"
  have r: "resolve w ?gp = ?ip"
    by (simp add: resolve_path_join plain_names)
  have c: "(if isfile w ?gp then read_text w ?gp else Inr []) = Inr old"
    using f by (auto simp: isfile_def read_text_def r)
  have o: "open_w w ?gp = Inr (put_node w ?ip (File []))"
    using f d by (auto simp: open_w_def r)
  have wr: "write_str (put_node w ?ip (File [])) ?gp t = put_node (put_node w ?ip (File [])) ?ip (File t)" for t
    by (simp add: write_str_def r node_at_put_node)
  have e: "endswith old [CHR 0x0A] = (\<exists>t0. old = t0 @ [CHR 0x0A])"
    by (auto simp: endswith_def suffix_def)
  show ?thesis
    by (simp add: ensure_gitignore_def c o wr e has_entry_entries)
qed



lemma ignore_repo_nodes:
  "node_at (ignore_repo t) (resolve (ignore_repo t) ''/r'') = Some (Dir True)"
  "node_at (ignore_repo t) (resolve (ignore_repo t) ''/r'' @ [''.gitignore'']) = Some (File t)"
  "resolve (ignore_repo t) ''/r'' @ [''.gitignore''] = [''r'', ''.gitignore'']"
  by (simp_all add: ignore_repo_def node_at_def resolve_def startswith_def norm_step_def)


subsection \<open>The config file\<close>

lemma write_config_calls_split:
  "write_config_calls repo_path config =
     calls_before_replace repo_path config
     @ [Replace (config_path_of repo_path @ ''.tmp'') (config_path_of repo_path)]"
  by (simp add: write_config_calls_def calls_before_replace_def config_path_of_def Let_def)

lemma run_calls_last:
  "run_calls w (xs @ [c]) =
     (case run_calls w xs of
        (Some e, w1) \<Rightarrow> (Some e, w1)
      | (None, w1) \<Rightarrow> (case exec_call w1 c of Inl e \<Rightarrow> (Some e, w1) | Inr w2 \<Rightarrow> (None, w2)))"
  by (induction xs arbitrary: w) (auto split: sum.splits)

lemma write_config_cases:
  "write_config w repo_path config =
     (case run_calls w (calls_before_replace repo_path config) of
        (Some e, w1) \<Rightarrow> (Some e, w1)
      | (None, w1) \<Rightarrow>
          (case replace w1 (config_path_of repo_path @ ''.tmp'') (config_path_of repo_path) of
             Inl e \<Rightarrow> (Some e, w1)
           | Inr w2 \<Rightarrow> (None, w2)))"
  by (simp only: write_config_def write_config_calls_split run_calls_last exec_call.simps)

lemma cbr_cons:
  "calls_before_replace repo_path config =
     Makedirs (path_join repo_path CONFIG_DIR) # OpenW (config_path_of repo_path @ ''.tmp'')
     # (map (\<lambda>c. Write (config_path_of repo_path @ ''.tmp'') [c]) (dumps_pretty config)
        @ [Write (config_path_of repo_path @ ''.tmp'') [CHR 0x0A]])"
  by (simp add: calls_before_replace_def)

lemma cbr_steps:
  assumes "run_calls w (calls_before_replace repo_path config) = (None, w')"
  shows "\<exists>w1 w2 w3. makedirs w (path_join repo_path CONFIG_DIR) = Inr w1
     \<and> open_w w1 (config_path_of repo_path @ ''.tmp'') = Inr w2
     \<and> run_calls w2 (map (\<lambda>c. Write (config_path_of repo_path @ ''.tmp'') [c]) (dumps_pretty config)) = (None, w3)
     \<and> w' = write_str w3 (config_path_of repo_path @ ''.tmp'') [CHR 0x0A]"
proof -
  let ?d = "path_join repo_path CONFIG_DIR" and ?t = "config_path_of repo_path @ ''.tmp''"
  let ?ws = "map (\<lambda>c. Write ?t [c]) (dumps_pretty config)"
  note a = assms[unfolded cbr_cons]
  obtain w1 where m: "makedirs w ?d = Inr w1"
    using a by (cases "makedirs w ?d") simp_all
  obtain w2 where o: "open_w w1 ?t = Inr w2"
    using a m by (cases "open_w w1 ?t") simp_all
  have rest: "run_calls w2 (?ws @ [Write ?t [CHR 0x0A]]) = (None, w')"
    using a m o by simp
  obtain r w3 where w3: "run_calls w2 ?ws = (r, w3)"
    by (cases "run_calls w2 ?ws") auto
  from rest have "r = None \<and> w' = write_str w3 ?t [CHR 0x0A]"
    by (cases r) (simp_all add: run_calls_last w3)
  with m o w3 show ?thesis by blast
qed

lemma calls_before_replace_kinds:
  "\<forall>c \<in> set (calls_before_replace repo_path config).
      c = Makedirs (path_join repo_path CONFIG_DIR)
    \<or> c = OpenW (config_path_of repo_path @ ''.tmp'')
    \<or> (\<exists>s. c = Write (config_path_of repo_path @ ''.tmp'') s)"
  by (auto simp: calls_before_replace_def)

lemma before_replace_frame:
  assumes "set cs \<subseteq> set (calls_before_replace repo_path config)"
    and "run_calls w cs = (r, w')"
  shows "node_at w' (resolve w (config_path_of repo_path)) = node_at w (resolve w (config_path_of repo_path))
         \<and> cwd w' = cwd w"
proof (rule run_calls_frame[OF _ _ _ assms(2)])
  show "\<forall>c \<in> set cs. c = Makedirs (path_join repo_path CONFIG_DIR)
    \<or> c = OpenW (config_path_of repo_path @ ''.tmp'')
    \<or> (\<exists>s. c = Write (config_path_of repo_path @ ''.tmp'') s)"
    using assms(1) calls_before_replace_kinds by blast
  show "length (resolve w (path_join repo_path CONFIG_DIR)) < length (resolve w (config_path_of repo_path))"
    by (simp add: resolve_config_path resolve_path_join plain_names)
  show "resolve w (config_path_of repo_path @ ''.tmp'') \<noteq> resolve w (config_path_of repo_path)"
    by (simp add: resolve_config_path resolve_tmp_path CONFIG_FILE_def)
qed

lemma before_replace_tmp:
  assumes "run_calls w (calls_before_replace repo_path config) = (None, w')"
  shows "node_at w' (resolve w (config_path_of repo_path @ ''.tmp''))
           = Some (File (dumps_pretty config @ [CHR 0x0A]))"
proof -
  let ?d = "path_join repo_path CONFIG_DIR" and ?t = "config_path_of repo_path @ ''.tmp''"
  from cbr_steps[OF assms] obtain w1 w2 w3 where m: "makedirs w ?d = Inr w1"
    and o: "open_w w1 ?t = Inr w2"
    and w3: "run_calls w2 (map (\<lambda>c. Write ?t [c]) (dumps_pretty config)) = (None, w3)"
    and w': "w' = write_str w3 ?t [CHR 0x0A]"
    by blast
  from make_path_frame[OF m[unfolded makedirs_def]] have c1: "cwd w1 = cwd w" by simp
  from open_w_result[OF o] have w2: "w2 = put_node w1 (resolve w1 ?t) (File [])"
    and ne: "resolve w1 ?t \<noteq> []" by simp_all
  have r1: "resolve w1 ?t = resolve w ?t" using c1 by (rule resolve_same_cwd)
  have r2: "resolve w2 ?t = resolve w ?t" by (simp add: w2 r1)
  have n2: "node_at w2 (resolve w2 ?t) = Some (File [])"
    using ne by (simp add: w2 node_at_put_node)
  have ne2: "resolve w2 ?t \<noteq> []" using ne r1 r2 by simp
  from run_writes[OF n2 ne2, of "dumps_pretty config"] w3
  have n3: "node_at w3 (resolve w2 ?t) = Some (File (dumps_pretty config))"
    and c3: "cwd w3 = cwd w2"
    by auto
  have r3: "resolve w3 ?t = resolve w ?t"
    using resolve_same_cwd[OF c3, of ?t] r2 by simp
  have "node_at (write_str w3 ?t [CHR 0x0A]) (resolve w3 ?t) = Some (File (dumps_pretty config @ [CHR 0x0A]))"
    by (rule write_str_file) (use n3 r3 r2 ne2 in simp_all)
  then show ?thesis by (simp add: r3 w')
qed

lemma replace_file_result:
  assumes "replace w src dst = Inr w'" and "node_at w (resolve w src) = Some (File t)"
  shows "w' = put_node (del_node w (resolve w src)) (resolve w dst) (File t) \<and> resolve w dst \<noteq> []"
proof (cases "resolve w dst = []")
  case True
  with assms show ?thesis by (simp add: replace_def)
next
  case False
  show ?thesis
  proof (cases "node_at w (butlast (resolve w dst))")
    case None
    with assms False show ?thesis by (simp add: replace_def)
  next
    case p: (Some pn)
    show ?thesis
    proof (cases pn)
      case (Dir l)
      show ?thesis
      proof (cases "node_at w (resolve w dst)")
        case None
        with assms False p Dir show ?thesis by (simp add: replace_def)
      next
        case d: (Some dn)
        with assms False p Dir show ?thesis by (cases dn) (simp_all add: replace_def)
      qed
    qed (use assms False p in \<open>simp_all add: replace_def\<close>)
  qed
qed

lemma write_config_done:
  assumes "write_config w repo_path config = (None, w')"
  shows "node_at w' (resolve w (config_path_of repo_path))
           = Some (File (dumps_pretty config @ [CHR 0x0A]))
         \<and> node_at w' (resolve w (config_path_of repo_path @ ''.tmp'')) = None
         \<and> cwd w' = cwd w"
proof -
  let ?t = "config_path_of repo_path @ ''.tmp''" and ?c = "config_path_of repo_path"
  obtain r w1 where b: "run_calls w (calls_before_replace repo_path config) = (r, w1)"
    by (cases "run_calls w (calls_before_replace repo_path config)") auto
  have rn: "r = None"
    using assms b by (cases r) (simp_all add: write_config_cases)
  have rp: "replace w1 ?t ?c = Inr w'"
    using assms b rn by (cases "replace w1 ?t ?c") (simp_all add: write_config_cases)
  from before_replace_frame[OF subset_refl b] have c1: "cwd w1 = cwd w" by simp
  have rs: "resolve w1 s = resolve w s" for s using c1 by (rule resolve_same_cwd)
  from before_replace_tmp[OF b[unfolded rn]]
  have tt: "node_at w1 (resolve w1 ?t) = Some (File (dumps_pretty config @ [CHR 0x0A]))"
    by (simp add: rs)
  from replace_file_result[OF rp tt]
  have w': "w' = put_node (del_node w1 (resolve w ?t)) (resolve w ?c) (File (dumps_pretty config @ [CHR 0x0A]))"
    and ne: "resolve w ?c \<noteq> []"
    by (simp_all add: rs)
  have d: "resolve w ?t \<noteq> resolve w ?c" "resolve w ?t \<noteq> []"
    by (simp_all add: resolve_config_path resolve_tmp_path CONFIG_FILE_def)
  show ?thesis
    using ne d by (simp add: w' node_at_put_node node_at_del_node c1)
qed

lemma write_config_failed:
  assumes "write_config w repo_path config = (Some e, w')"
  shows "node_at w' (resolve w (config_path_of repo_path)) = node_at w (resolve w (config_path_of repo_path))
         \<and> cwd w' = cwd w"
proof -
  let ?t = "config_path_of repo_path @ ''.tmp''" and ?c = "config_path_of repo_path"
  obtain r w1 where b: "run_calls w (calls_before_replace repo_path config) = (r, w1)"
    by (cases "run_calls w (calls_before_replace repo_path config)") auto
  have "w' = w1"
    using assms b by (cases r; cases "replace w1 ?t ?c") (simp_all add: write_config_cases)
  with before_replace_frame[OF subset_refl b] show ?thesis by simp
qed

lemma write_config_killed_early:
  assumes "k < length (write_config_calls repo_path config)"
  shows "node_at (snd (write_config_killed k w repo_path config)) (resolve w (config_path_of repo_path))
           = node_at w (resolve w (config_path_of repo_path))"
proof -
  let ?cs = "take k (calls_before_replace repo_path config)"
  have "take k (write_config_calls repo_path config) = ?cs"
    using assms by (simp add: write_config_calls_split)
  then have k: "write_config_killed k w repo_path config = run_calls w ?cs"
    by (simp add: write_config_killed_def)
  obtain r w' where r: "run_calls w ?cs = (r, w')"
    by (cases "run_calls w ?cs") auto
  have "set ?cs \<subseteq> set (calls_before_replace repo_path config)"
    by (rule set_take_subset)
  from before_replace_frame[OF this r] show ?thesis
    by (simp add: k r)
qed

lemma write_config_killed_last:
  assumes "write_config_killed (length (write_config_calls repo_path config) - 1) w repo_path config
             = (None, w1)"
  shows "node_at w1 (resolve w (config_path_of repo_path @ ''.tmp''))
           = Some (File (dumps_pretty config @ [CHR 0x0A]))"
proof -
  have "take (length (write_config_calls repo_path config) - 1) (write_config_calls repo_path config)
          = calls_before_replace repo_path config"
    by (simp add: write_config_calls_split)
  with assms have "run_calls w (calls_before_replace repo_path config) = (None, w1)"
    by (simp add: write_config_killed_def)
  then show ?thesis by (rule before_replace_tmp)
qed

lemma sort_key_fst_unique:
  assumes "distinct (map fst xs)" and "distinct (map fst ys)" and "set xs = set ys"
  shows "sort_key fst xs = sort_key fst ys"
proof -
  have s: "set (map fst xs) = set (map fst ys)"
    using assms(3) by simp
  have "map fst (sort_key fst xs) = map fst (sort_key fst ys)"
  proof (rule sorted_distinct_set_unique)
    show "sorted (map fst (sort_key fst xs))" "sorted (map fst (sort_key fst ys))"
      by (rule sorted_sort_key)+
    show "distinct (map fst (sort_key fst xs))"
      using assms(1) by (simp add: distinct_map)
    show "distinct (map fst (sort_key fst ys))"
      using assms(2) by (simp add: distinct_map)
    show "set (map fst (sort_key fst xs)) = set (map fst (sort_key fst ys))"
      using s by simp
  qed
  moreover have "inj_on fst (set (sort_key fst xs) \<union> set (sort_key fst ys))"
    using assms by (simp add: distinct_map)
  ultimately show ?thesis
    by (rule map_inj_on)
qed

lemma config_file_resolve: "resolve w (config_path_of repo_path) = config_file w repo_path"
  by (simp add: resolve_config_path config_file_def CONFIG_DIR_def CONFIG_FILE_def)

lemma temp_file_resolve: "resolve w (config_path_of repo_path @ ''.tmp'') = temp_file w repo_path"
  by (simp add: resolve_tmp_path temp_file_def CONFIG_DIR_def CONFIG_FILE_def)

lemma write_config_killed_late:
  assumes "length (write_config_calls repo_path config) \<le> k"
  shows "write_config_killed k w repo_path config = write_config w repo_path config"
  using assms by (simp add: write_config_killed_def write_config_def)

lemma write_config_killed_any:
  "node_at (snd (write_config_killed k w repo_path config)) (config_file w repo_path)
     = node_at w (config_file w repo_path)
   \<or> node_at (snd (write_config_killed k w repo_path config)) (config_file w repo_path)
     = Some (File (config_text config))"
proof (cases "k < length (write_config_calls repo_path config)")
  case True
  from write_config_killed_early[OF True, of w] show ?thesis
    by (simp add: config_file_resolve)
next
  case False
  then have k: "write_config_killed k w repo_path config = write_config w repo_path config"
    by (simp add: write_config_killed_late)
  obtain r w' where r: "write_config w repo_path config = (r, w')"
    by (cases "write_config w repo_path config") auto
  show ?thesis
  proof (cases r)
    case None
    with write_config_done[of w repo_path config w'] r show ?thesis
      by (simp add: k config_file_resolve config_text_def)
  next
    case (Some e)
    with write_config_failed[of w repo_path config e w'] r show ?thesis
      by (simp add: k config_file_resolve)
  qed
qed

lemma config_text_key_order:
  assumes "distinct (map fst kvs)" and "distinct (map fst kvs')" and "set kvs = set kvs'"
  shows "config_text (JObj kvs) = config_text (JObj kvs')"
proof -
  have "kvs = [] \<longleftrightarrow> kvs' = []"
    using assms(3) by (metis set_empty)
  with sort_key_fst_unique[OF assms] show ?thesis
    by (simp add: config_text_def dumps_pretty_def)
qed




end
